theory Spec2Isabelle
  imports Main
begin

section \<open>Python values, errors and strings\<close>

text \<open>
  A Python \<open>str\<close> is modelled as a \<open>string\<close>: the list of its code points, for texts
  whose code points are below 256. The values the parser builds and the announcer
  reads back with \<open>json.load\<close> are JSON values; numbers are the integers (a JSON
  number with a fraction or an exponent is outside this model). \<open>JObj\<close> holds the items
  of a dict in insertion order; the keys of a dict are distinct.
\<close>

datatype json =
    JNull
  | JBool bool
  | JInt int
  | JStr string
  | JArr "json list"
  | JObj "(string \<times> json) list"

text \<open>
  The instances of \<open>Exception\<close> that the two programs can meet. \<open>OtherException\<close> stands
  for every other subclass of \<open>Exception\<close> (a permission error, a decoding error, an
  HTTP error of the chat client), with its message. Both handlers of the programs are
  \<open>except Exception\<close>; what is not an \<open>Exception\<close> (the cancellation of a task, the
  exit of the interpreter) is outside this model.
\<close>

datatype py_error =
    ValueError
  | IndexError
  | KeyError
  | TypeError
  | FileNotFoundError
  | JSONDecodeError
  | OtherException string

datatype level = DEBUG | INFO | WARNING | ERROR

text \<open>
  A log record is its level and its text; \<open>LogExc l s e\<close> is the record whose text is
  \<open>s\<close> followed by \<open>str(e)\<close> for the caught exception \<open>e\<close>.
\<close>

datatype log_record = Log level string | LogExc level string py_error

definition bindE :: "'e + 'a \<Rightarrow> ('a \<Rightarrow> 'e + 'b) \<Rightarrow> 'e + 'b" where
  "bindE m f = (case m of Inl e \<Rightarrow> Inl e | Inr v \<Rightarrow> f v)"

text \<open>\<open>xs[i]\<close> for a non-negative index: IndexError out of range.\<close>

definition index :: "'a list \<Rightarrow> nat \<Rightarrow> py_error + 'a" where
  "index xs i = (if i < length xs then Inr (xs ! i) else Inl IndexError)"

text \<open>\<open>str.isspace\<close> on one character, for code points below 256.\<close>

definition is_space :: "char \<Rightarrow> bool" where
  "is_space c =
     (let n = (of_char c :: nat)
      in (9 \<le> n \<and> n \<le> 13) \<or> (28 \<le> n \<and> n \<le> 32) \<or> n = 133 \<or> n = 160)"

text \<open>\<open>str.lower\<close>, for code points below 256.\<close>

definition lower_char :: "char \<Rightarrow> char" where
  "lower_char c =
     (let n = (of_char c :: nat)
      in if (65 \<le> n \<and> n \<le> 90) \<or> (192 \<le> n \<and> n \<le> 222 \<and> n \<noteq> 215)
         then char_of (n + 32) else c)"

definition py_lower :: "string \<Rightarrow> string" where
  "py_lower s = map lower_char s"

text \<open>\<open>str.strip()\<close>: leading and trailing whitespace removed.\<close>

definition py_strip :: "string \<Rightarrow> string" where
  "py_strip s = rev (dropWhile is_space (rev (dropWhile is_space s)))"

text \<open>
  \<open>str.split()\<close> with no argument: the maximal runs of non-whitespace characters, in
  order. The second argument is the run being read, reversed.
\<close>

fun split_ws :: "string \<Rightarrow> string \<Rightarrow> string list" where
  "split_ws [] cur = (if cur = [] then [] else [rev cur])"
| "split_ws (c # cs) cur =
     (if is_space c
      then (if cur = [] then split_ws cs [] else rev cur # split_ws cs [])
      else split_ws cs (c # cur))"

definition py_split :: "string \<Rightarrow> string list" where
  "py_split s = split_ws s []"

text \<open>\<open>str.split(sep)\<close> for a separator of one character: never the empty list.\<close>

fun split_on :: "char \<Rightarrow> string \<Rightarrow> string list" where
  "split_on sep [] = [[]]"
| "split_on sep (c # cs) =
     (if c = sep then [] # split_on sep cs
      else (case split_on sep cs of [] \<Rightarrow> [[c]] | w # ws \<Rightarrow> (c # w) # ws))"

text \<open>
  \<open>int(s)\<close> on a string, base 10: surrounding whitespace is stripped, one sign is
  allowed, then decimal digits, with single underscores allowed between digits.
  Everything else raises ValueError. (The interpreter's configurable limit on the
  number of digits, which also raises ValueError, is not modelled.)
\<close>

definition is_digit :: "char \<Rightarrow> bool" where
  "is_digit c = (let n = (of_char c :: nat) in 48 \<le> n \<and> n \<le> 57)"

definition digit_val :: "char \<Rightarrow> nat" where
  "digit_val c = of_char c - 48"

fun int_digits :: "nat \<Rightarrow> string \<Rightarrow> nat option" where
  "int_digits acc [] = Some acc"
| "int_digits acc (c # cs) =
     (if is_digit c then int_digits (acc * 10 + digit_val c) cs
      else if c = CHR ''_'' then
        (case cs of
           [] \<Rightarrow> None
         | d # ds \<Rightarrow> if is_digit d then int_digits (acc * 10 + digit_val d) ds else None)
      else None)"

definition int_unsigned :: "string \<Rightarrow> nat option" where
  "int_unsigned s =
     (case s of
        [] \<Rightarrow> None
      | c # cs \<Rightarrow> if is_digit c then int_digits (digit_val c) cs else None)"

definition py_int :: "string \<Rightarrow> py_error + int" where
  "py_int s =
     (case py_strip s of
        [] \<Rightarrow> Inl ValueError
      | c # cs \<Rightarrow>
          (if c = CHR ''-'' then
             (case int_unsigned cs of None \<Rightarrow> Inl ValueError | Some n \<Rightarrow> Inr (- int n))
           else if c = CHR ''+'' then
             (case int_unsigned cs of None \<Rightarrow> Inl ValueError | Some n \<Rightarrow> Inr (int n))
           else
             (case int_unsigned (c # cs) of None \<Rightarrow> Inl ValueError | Some n \<Rightarrow> Inr (int n))))"

text \<open>The truth value of a value in a condition (\<open>x if x else y\<close>).\<close>

fun truthy :: "json \<Rightarrow> bool" where
  "truthy JNull = False"
| "truthy (JBool b) = b"
| "truthy (JInt n) = (n \<noteq> 0)"
| "truthy (JStr s) = (s \<noteq> [])"
| "truthy (JArr xs) = (xs \<noteq> [])"
| "truthy (JObj kvs) = (kvs \<noteq> [])"

section \<open>generate\_json.py: the plan parser\<close>

text \<open>
  \<open>parse_scripture_reference\<close>: the dict with keys chapters and verses. The unpacking
  \<open>chapters, verses = reference.split(':')\<close> raises ValueError unless the split has
  exactly two parts.
\<close>

definition parse_scripture_reference :: "string \<Rightarrow> py_error + json" where
  "parse_scripture_reference reference =
     (if CHR '':'' \<in> set reference then
        (case split_on CHR '':'' reference of
           [chapters, verses] \<Rightarrow>
             Inr (JObj [(''chapters'', JStr chapters), (''verses'', JStr verses)])
         | _ \<Rightarrow> Inl ValueError)
      else Inr (JObj [(''chapters'', JStr reference), (''verses'', JStr ''all'')]))"

text \<open>\<open>d[k]\<close> for a string key: KeyError on a dict without the key, TypeError on every
  value that is not a dict (None, a number, a string or a list under a string key).\<close>

definition subscript :: "json \<Rightarrow> string \<Rightarrow> py_error + json" where
  "subscript v k =
     (case v of
        JObj kvs \<Rightarrow> (case map_of kvs k of None \<Rightarrow> Inl KeyError | Some x \<Rightarrow> Inr x)
      | _ \<Rightarrow> Inl TypeError)"

definition create_reading :: "string \<Rightarrow> string \<Rightarrow> py_error + json" where
  "create_reading book reference =
     bindE (parse_scripture_reference reference) (\<lambda>reference_data.
     bindE (subscript reference_data ''chapters'') (\<lambda>chapters.
     bindE (subscript reference_data ''verses'') (\<lambda>verses.
       Inr (JObj [(''book'', JStr book), (''chapters'', chapters), (''verses'', verses)]))))"

definition poem_books :: "string list" where
  "poem_books = [''psalm'', ''psalms'', ''proverb'', ''proverbs'']"

text \<open>
  The body of the \<open>try\<close> block of the loop, for the tokens \<open>parts\<close> of a day line,
  in three pieces. \<open>first_block parts i\<close> is the block "Process first reading": the
  first reading and the new value of \<open>i\<close>. \<open>second_block parts i\<close> is the block
  "Process second reading or poem": the values of \<open>second_reading\<close> and \<open>poem\<close> after
  it (\<open>JNull\<close> is \<open>None\<close>). Each is \<open>Inl e\<close> when it raises \<open>e\<close>.
\<close>

definition first_block :: "string list \<Rightarrow> nat \<Rightarrow> py_error + json \<times> nat" where
  "first_block parts i =
     (if i < length parts then
        bindE (index parts i) (\<lambda>b.
        bindE (index parts (i + 1)) (\<lambda>r.
        bindE (create_reading b r) (\<lambda>first_reading. Inr (first_reading, i + 2))))
      else Inr (JNull, i))"

definition second_block :: "string list \<Rightarrow> nat \<Rightarrow> py_error + json \<times> json" where
  "second_block parts i =
     (if i < length parts then
        bindE (index parts i) (\<lambda>b.
          if py_lower b \<in> set poem_books then
            bindE (index parts i) (\<lambda>b.
            bindE (index parts (i + 1)) (\<lambda>r.
            bindE (create_reading b r) (\<lambda>poem. Inr (JNull, poem))))
          else
            bindE (index parts i) (\<lambda>b.
            bindE (index parts (i + 1)) (\<lambda>r.
            bindE (create_reading b r) (\<lambda>second_reading.
              if i + 2 < length parts then
                bindE (index parts (i + 2)) (\<lambda>b2.
                bindE (index parts (i + 3)) (\<lambda>r2.
                bindE (create_reading b2 r2) (\<lambda>poem. Inr (second_reading, poem))))
              else Inr (second_reading, JNull)))))
      else Inr (JNull, JNull))"

text \<open>
  The whole body: \<open>Inr None\<close> when the line has fewer than four tokens (the
  \<open>continue\<close> after the warning), \<open>Inr (Some day_data)\<close> when \<open>day_data\<close> is appended
  to the result, \<open>Inl e\<close> when the body raises \<open>e\<close>.
\<close>

definition process_day_line :: "string \<Rightarrow> string list \<Rightarrow> py_error + json option" where
  "process_day_line current_period parts =
     (if length parts < 4 then Inr None
      else
        bindE (index parts 1) (\<lambda>tok.
        bindE (py_int tok) (\<lambda>day_number.
        bindE (first_block parts 2) (\<lambda>(first_reading, i).
        bindE (second_block parts i) (\<lambda>(second_reading, poem).
          Inr (Some (JObj
            [(''day'', JInt day_number),
             (''period'', JStr current_period),
             (''first_reading'', first_reading),
             (''second_reading'',
                if truthy second_reading then second_reading else JStr ''none''),
             (''poem'', poem)])))))))"

text \<open>
  The state of the loop of \<open>parse_text_to_json\<close>: the list \<open>result\<close>, the variable
  \<open>current_period\<close>, and the records logged so far. The debug record of a processed
  day is below the configured level (INFO) and is not emitted.
\<close>

record parser_state =
  result :: "json list"
  current_period :: string
  logging :: "log_record list"

text \<open>The list \<open>parts\<close> of a stripped line.\<close>

definition tokens :: "string \<Rightarrow> string list" where
  "tokens line = filter (\<lambda>part. part \<noteq> []) (py_split line)"

definition process_line :: "parser_state \<Rightarrow> string \<Rightarrow> parser_state" where
  "process_line st raw =
     (let line = py_strip raw in
      if line = [] then st
      else
        let parts = tokens line in
        if parts = [] then st
        else if py_lower (parts ! 0) \<noteq> ''day'' then
          st\<lparr>current_period := py_strip line,
             logging := logging st @ [Log INFO (''New period detected: '' @ py_strip line)]\<rparr>
        else
          (case process_day_line (current_period st) parts of
             Inr None \<Rightarrow>
               st\<lparr>logging := logging st @ [Log WARNING (''Skipping malformed line: '' @ line)]\<rparr>
           | Inr (Some day_data) \<Rightarrow> st\<lparr>result := result st @ [day_data]\<rparr>
           | Inl e \<Rightarrow>
               st\<lparr>logging := logging st @
                 [LogExc ERROR
                    (''Error processing line '' @ [CHR 0x27] @ line @ [CHR 0x27] @ '': '') e]\<rparr>))"

text \<open>\<open>str(n)\<close> for an integer.\<close>

function str_nat :: "nat \<Rightarrow> string" where
  "str_nat n =
     (if n < 10 then [char_of (48 + n)]
      else str_nat (n div 10) @ [char_of (48 + n mod 10)])"
  by pat_completeness auto
termination
  by (relation "measure id") auto

declare str_nat.simps [simp del]

definition str_int :: "int \<Rightarrow> string" where
  "str_int i = (if i < 0 then CHR ''-'' # str_nat (nat (- i)) else str_nat (nat i))"

text \<open>\<open>f.readlines()\<close> on the text of the file: the lines, each with its newline.\<close>

fun readlines :: "string \<Rightarrow> string list" where
  "readlines [] = []"
| "readlines (c # cs) =
     (if c = CHR 0x0A then [c] # readlines cs
      else (case readlines cs of [] \<Rightarrow> [[c]] | l # ls \<Rightarrow> (c # l) # ls))"

text \<open>
  The loop of \<open>parse_text_to_json\<close> over the lines read, from its initial state, after the
  first info record.
\<close>

definition parse_lines :: "string list \<Rightarrow> parser_state" where
  "parse_lines lines =
     foldl process_line
       \<lparr>result = [], current_period = [],
        logging = [Log INFO (''Read '' @ str_nat (length lines) @ '' lines from the file.'')]\<rparr>
       lines"

text \<open>
  \<open>parse_text_to_json\<close>, given what opening and reading the file gives: an exception
  of \<open>open\<close> is not caught and escapes. The value returned is the list \<open>result\<close> as
  a JSON array (\<open>json.dumps\<close> writes this value out as text, which \<open>json.load\<close> reads
  back as the same value).
\<close>

definition parse_text_to_json :: "py_error + string \<Rightarrow> py_error + json \<times> log_record list" where
  "parse_text_to_json file =
     (case file of
        Inl e \<Rightarrow> Inl e
      | Inr text \<Rightarrow>
          (let st = parse_lines (readlines text) in Inr (JArr (result st), logging st)))"

section \<open>biay\_bot.py: the daily announcer\<close>

text \<open>
  The text an f-string gives for a value is \<open>str(v)\<close>: a string as it is, every other
  value as its \<open>repr\<close>. \<open>repr\<close> of a string quotes it with single quotes (with double
  quotes when it holds a single quote and no double quote) and escapes the quote, the
  backslash and the characters that are not printable.
\<close>

definition hex_digit :: "nat \<Rightarrow> char" where
  "hex_digit n = (if n < 10 then char_of (48 + n) else char_of (87 + n))"

definition printable :: "char \<Rightarrow> bool" where
  "printable c =
     (let n = (of_char c :: nat)
      in 32 \<le> n \<and> n \<noteq> 127 \<and> \<not> (128 \<le> n \<and> n \<le> 160) \<and> n \<noteq> 173)"

definition repr_char :: "char \<Rightarrow> char \<Rightarrow> string" where
  "repr_char quote c =
     (if c = quote \<or> c = CHR 0x5C then [CHR 0x5C, c]
      else if c = CHR 0x09 then [CHR 0x5C, CHR ''t'']
      else if c = CHR 0x0A then [CHR 0x5C, CHR ''n'']
      else if c = CHR 0x0D then [CHR 0x5C, CHR ''r'']
      else if printable c then [c]
      else [CHR 0x5C, CHR ''x'',
            hex_digit ((of_char c :: nat) div 16), hex_digit ((of_char c :: nat) mod 16)])"

definition repr_str :: "string \<Rightarrow> string" where
  "repr_str s =
     (let quote = (if CHR 0x27 \<in> set s \<and> CHR 0x22 \<notin> set s then CHR 0x22 else CHR 0x27)
      in [quote] @ concat (map (repr_char quote) s) @ [quote])"

fun join_str :: "string \<Rightarrow> string list \<Rightarrow> string" where
  "join_str sep [] = []"
| "join_str sep [x] = x"
| "join_str sep (x # y # ys) = x @ sep @ join_str sep (y # ys)"

fun py_repr :: "json \<Rightarrow> string" where
  "py_repr JNull = ''None''"
| "py_repr (JBool b) = (if b then ''True'' else ''False'')"
| "py_repr (JInt n) = str_int n"
| "py_repr (JStr s) = repr_str s"
| "py_repr (JArr xs) = ''['' @ join_str '', '' (map py_repr xs) @ '']''"
| "py_repr (JObj kvs) =
     ''{'' @ join_str '', '' (map (\<lambda>kv. repr_str (fst kv) @ '': '' @ py_repr (snd kv)) kvs)
       @ ''}''"

definition py_str :: "json \<Rightarrow> string" where
  "py_str v = (case v of JStr s \<Rightarrow> s | _ \<Rightarrow> py_repr v)"

text \<open>\<open>sep.join(items)\<close>: TypeError when an item is not a string.\<close>

fun the_strs :: "json list \<Rightarrow> py_error + string list" where
  "the_strs [] = Inr []"
| "the_strs (v # vs) =
     (case v of
        JStr s \<Rightarrow> bindE (the_strs vs) (\<lambda>ss. Inr (s # ss))
      | _ \<Rightarrow> Inl TypeError)"

definition py_join :: "string \<Rightarrow> json list \<Rightarrow> py_error + string" where
  "py_join sep items = bindE (the_strs items) (\<lambda>ss. Inr (join_str sep ss))"

text \<open>
  The local date of a firing, \<open>datetime.now(self.timezone)\<close>, with the two things the
  bot reads from it: \<open>timetuple().tm_yday\<close> and \<open>strftime('%B %d')\<close> (the month name of
  the C locale and the day of the month in two digits). The month of a datetime is between
  1 and 12 and its day between 1 and the length of the month.
\<close>

record datetime =
  year :: int
  month :: nat
  day :: nat

definition is_leap :: "int \<Rightarrow> bool" where
  "is_leap y = (y mod 4 = 0 \<and> (y mod 100 \<noteq> 0 \<or> y mod 400 = 0))"

definition days_in_month :: "int \<Rightarrow> nat \<Rightarrow> nat" where
  "days_in_month y m =
     (if m = 2 then (if is_leap y then 29 else 28)
      else if m = 4 \<or> m = 6 \<or> m = 9 \<or> m = 11 then 30 else 31)"

definition tm_yday :: "datetime \<Rightarrow> int" where
  "tm_yday d = int (sum_list (map (days_in_month (year d)) [1..<month d]) + day d)"

definition month_name :: "nat \<Rightarrow> string" where
  "month_name m =
     [''January'', ''February'', ''March'', ''April'', ''May'', ''June'', ''July'',
      ''August'', ''September'', ''October'', ''November'', ''December''] ! (m - 1)"

definition strftime_B_d :: "datetime \<Rightarrow> string" where
  "strftime_B_d d =
     month_name (month d) @ '' '' @ (if day d < 10 then ''0'' else []) @ str_nat (day d)"

text \<open>\<open>format_daily_message\<close>: the list \<open>message\<close> holds values, since the second
  reading is appended as it is; the join at the end needs every item to be a string.\<close>

definition format_daily_message :: "json \<Rightarrow> datetime \<Rightarrow> py_error + string" where
  "format_daily_message entry date =
     bindE (subscript entry ''day'') (\<lambda>d.
     bindE (subscript entry ''period'') (\<lambda>period.
     bindE (subscript entry ''first_reading'') (\<lambda>fr1.
     bindE (subscript fr1 ''book'') (\<lambda>fbook.
     bindE (subscript entry ''first_reading'') (\<lambda>fr2.
     bindE (subscript fr2 ''chapters'') (\<lambda>fchapters.
       let message =
         [JStr (''# Bible in a Year Day '' @ py_str d @ '' ('' @ strftime_B_d date @ '') ''
                 @ py_str period),
          JStr [],
          JStr ''## Readings'',
          JStr [],
          JStr ''### First Reading'',
          JStr (py_str fbook @ '' Chapter(s) '' @ py_str fchapters)]
       in
     bindE (subscript entry ''second_reading'') (\<lambda>sr.
     bindE (if sr \<noteq> JStr ''none'' then
              bindE (subscript entry ''second_reading'') (\<lambda>sr2.
                Inr (message @ [JStr [], JStr ''### Second Reading'', sr2]))
            else Inr message) (\<lambda>message.
     bindE (subscript entry ''poem'') (\<lambda>p1.
     bindE (subscript p1 ''book'') (\<lambda>pbook.
     bindE (subscript entry ''poem'') (\<lambda>p2.
     bindE (subscript p2 ''chapters'') (\<lambda>pchapters.
       py_join [CHR 0x0A]
         (message @ [JStr [], JStr ''### Poem'',
                     JStr (py_str pbook @ '' '' @ py_str pchapters)])))))))))))))"

text \<open>
  What a firing meets outside the program: the path and the channel id of the
  configuration, what opening the file and \<open>json.load\<close> give, the local date, and what
  \<open>client.get_channel\<close> gives: \<open>None\<close>, or a channel whose \<open>send\<close> either raises or
  returns.
\<close>

record env =
  json_path :: string
  channel_id :: int
  disk :: "py_error + json"
  today :: datetime
  get_channel :: "(string \<Rightarrow> py_error option) option"

text \<open>What a firing does: the messages delivered and the records logged.\<close>

record bot_state =
  sent :: "string list"
  logger :: "log_record list"

definition log_to :: "log_record \<Rightarrow> bot_state \<Rightarrow> bot_state" where
  "log_to r st = st\<lparr>logger := logger st @ [r]\<rparr>"

definition load_bible_data :: "env \<Rightarrow> bot_state \<Rightarrow> (py_error + json) \<times> bot_state" where
  "load_bible_data e st =
     (case disk e of
        Inr data \<Rightarrow>
          (Inr data,
           log_to (Log INFO (''Successfully loaded Bible data from '' @ json_path e)) st)
      | Inl err \<Rightarrow>
          (if err = FileNotFoundError then
             (Inl err, log_to (Log ERROR (''Bible readings file not found at '' @ json_path e)) st)
           else if err = JSONDecodeError then
             (Inl err, log_to (Log ERROR (''Invalid JSON format in '' @ json_path e)) st)
           else (Inl err, st)))"

text \<open>\<open>for entry in bible_data\<close>: the items of a list, the keys of a dict, the
  characters of a string; TypeError on a value that cannot be iterated.\<close>

definition py_iter :: "json \<Rightarrow> py_error + json list" where
  "py_iter v =
     (case v of
        JArr xs \<Rightarrow> Inr xs
      | JObj kvs \<Rightarrow> Inr (map (\<lambda>kv. JStr (fst kv)) kvs)
      | JStr s \<Rightarrow> Inr (map (\<lambda>c. JStr [c]) s)
      | _ \<Rightarrow> Inl TypeError)"

text \<open>\<open>v == n\<close> for an integer \<open>n\<close>: \<open>True\<close> equals 1 and \<open>False\<close> equals 0.\<close>

definition py_eq_int :: "json \<Rightarrow> int \<Rightarrow> bool" where
  "py_eq_int v n =
     (case v of JInt k \<Rightarrow> k = n | JBool b \<Rightarrow> (if b then 1 else 0) = n | _ \<Rightarrow> False)"

text \<open>
  The \<open>for\<close> loop of \<open>send_bible_message\<close> with its \<open>else\<close> clause. The first component
  of the result is the exception that leaves the loop, if any.
\<close>

fun scan_entries :: "env \<Rightarrow> int \<Rightarrow> json list \<Rightarrow> bot_state \<Rightarrow> py_error option \<times> bot_state" where
  "scan_entries e day_of_year [] st =
     (None, log_to (Log WARNING (''No reading found for day '' @ str_int day_of_year)) st)"
| "scan_entries e day_of_year (entry # rest) st =
     (case subscript entry ''day'' of
        Inl err \<Rightarrow> (Some err, st)
      | Inr d \<Rightarrow>
          if py_eq_int d day_of_year then
            (case format_daily_message entry (today e) of
               Inl err \<Rightarrow> (Some err, st)
             | Inr message \<Rightarrow>
                 (case get_channel e of
                    None \<Rightarrow>
                      (None,
                       log_to (Log ERROR (''Could not find channel with ID ''
                                            @ str_int (channel_id e))) st)
                  | Some send \<Rightarrow>
                      (case send message of
                         Some err \<Rightarrow> (Some err, st)
                       | None \<Rightarrow>
                           (None,
                            log_to (Log INFO (''Successfully sent Bible reading for day ''
                                               @ str_int day_of_year))
                              (st\<lparr>sent := sent st @ [message]\<rparr>)))))
          else scan_entries e day_of_year rest st)"

text \<open>The body of the \<open>try\<close> block of \<open>send_bible_message\<close>.\<close>

definition send_body :: "env \<Rightarrow> bot_state \<Rightarrow> py_error option \<times> bot_state" where
  "send_body e st =
     (case load_bible_data e st of
        (Inl err, st1) \<Rightarrow> (Some err, st1)
      | (Inr bible_data, st1) \<Rightarrow>
          (let day_of_year = tm_yday (today e) in
           case py_iter bible_data of
             Inl err \<Rightarrow> (Some err, st1)
           | Inr entries \<Rightarrow> scan_entries e day_of_year entries st1))"

text \<open>
  \<open>send_bible_message\<close>: the handler \<open>except Exception\<close> logs whatever the body raised.
  The first component of the result is the exception that escapes the method.
\<close>

definition send_bible_message :: "env \<Rightarrow> bot_state \<Rightarrow> py_error option \<times> bot_state" where
  "send_bible_message e st =
     (case send_body e st of
        (None, st1) \<Rightarrow> (None, st1)
      | (Some err, st1) \<Rightarrow>
          (None, log_to (LogExc ERROR ''Error sending Bible message: '' err) st1))"

text \<open>
  A reading reference as \<open>create_reading\<close> builds it: a dict with exactly the keys book,
  chapters and verses, in this order, each holding a string.
\<close>

definition is_str :: "json \<Rightarrow> bool" where
  "is_str v = (case v of JStr s \<Rightarrow> True | _ \<Rightarrow> False)"

definition is_reading :: "json \<Rightarrow> bool" where
  "is_reading v =
     (case v of
        JObj kvs \<Rightarrow> map fst kvs = [''book'', ''chapters'', ''verses''] \<and> list_all is_str (map snd kvs)
      | _ \<Rightarrow> False)"

text \<open>
  The result of the parser as section 4.1 of the spec tells it, to compare with the loop:
  the records of the lines that are processed into a record, in the order of the lines.
  A blank line gives nothing; a header gives nothing and is the period of the lines after
  it; a day line gives its record under the period in force, or nothing when it has fewer
  than four tokens or its processing raises.
\<close>

fun processed_records :: "string \<Rightarrow> string list \<Rightarrow> json list" where
  "processed_records period [] = []"
| "processed_records period (raw # rest) =
     (if py_strip raw = [] then processed_records period rest
      else if py_lower (tokens (py_strip raw) ! 0) \<noteq> ''day'' then
        processed_records (py_strip raw) rest
      else
        (case process_day_line period (tokens (py_strip raw)) of
           Inr (Some day_data) \<Rightarrow> day_data # processed_records period rest
         | Inr None \<Rightarrow> processed_records period rest
         | Inl e \<Rightarrow> processed_records period rest))"

section \<open>Basic facts\<close>

lemma bindE_simps [simp]:
  "bindE (Inl e) f = Inl e" "bindE (Inr v) f = f v"
  by (simp_all add: bindE_def)

lemma index_eq [simp]: "i < length xs \<Longrightarrow> index xs i = Inr (xs ! i)"
  by (simp add: index_def)

lemma split_on_not_Nil [simp]: "split_on sep s \<noteq> []"
  by (induction s) (simp_all split: list.splits)

lemma split_on_no_sep: "sep \<notin> set s \<Longrightarrow> split_on sep s = [s]"
  by (induction s) auto

lemma split_on_one:
  "sep \<notin> set a \<Longrightarrow> sep \<notin> set b \<Longrightarrow> split_on sep (a @ sep # b) = [a, b]"
  by (induction a) (auto simp: split_on_no_sep)

lemma length_split_on: "length (split_on sep s) = Suc (count_list s sep)"
  by (induction s) (auto split: list.splits)

lemma list2_cases: "length xs = 2 \<Longrightarrow> \<exists>a b. xs = [a, b]"
  by (cases xs; cases "tl xs") auto

lemma parse_scripture_reference_total:
  assumes "count_list r CHR '':'' \<le> 1"
  shows "\<exists>c vs. parse_scripture_reference r =
           Inr (JObj [(''chapters'', JStr c), (''verses'', JStr vs)])"
proof (cases "CHR '':'' \<in> set r")
  case False
  then show ?thesis by (simp add: parse_scripture_reference_def)
next
  case True
  then have "count_list r CHR '':'' \<noteq> 0"
    by (simp add: count_list_0_iff)
  with assms have "count_list r CHR '':'' = 1" by arith
  then have "length (split_on CHR '':'' r) = 2"
    by (simp add: length_split_on)
  then obtain a b where "split_on CHR '':'' r = [a, b]"
    using list2_cases by blast
  with True show ?thesis by (simp add: parse_scripture_reference_def)
qed

lemma bindE_eq_Inr: "bindE m f = Inr y \<longleftrightarrow> (\<exists>v. m = Inr v \<and> f v = Inr y)"
  by (cases m) simp_all

lemma index_out: "length xs \<le> i \<Longrightarrow> index xs i = Inl IndexError"
  by (simp add: index_def)

lemma create_reading_eq:
  "create_reading b r =
     (case parse_scripture_reference r of
        Inl e \<Rightarrow> Inl e
      | Inr d \<Rightarrow> bindE (subscript d ''chapters'') (\<lambda>c. bindE (subscript d ''verses'') (\<lambda>v.
          Inr (JObj [(''book'', JStr b), (''chapters'', c), (''verses'', v)]))))"
  by (cases "parse_scripture_reference r") (simp_all add: create_reading_def)

lemma create_reading_total:
  assumes "count_list r CHR '':'' \<le> 1"
  shows "\<exists>c vs. create_reading b r =
           Inr (JObj [(''book'', JStr b), (''chapters'', JStr c), (''verses'', JStr vs)])"
proof -
  from parse_scripture_reference_total [OF assms] obtain c vs where
    "parse_scripture_reference r = Inr (JObj [(''chapters'', JStr c), (''verses'', JStr vs)])"
    by blast
  then show ?thesis by (simp add: create_reading_eq subscript_def)
qed

lemma parse_scripture_reference_Inr:
  assumes "parse_scripture_reference r = Inr d"
  shows "\<exists>c vs. d = JObj [(''chapters'', JStr c), (''verses'', JStr vs)]"
proof (cases "CHR '':'' \<in> set r")
  case False
  with assms show ?thesis by (auto simp: parse_scripture_reference_def)
next
  case True
  show ?thesis
  proof (cases "length (split_on CHR '':'' r) = 2")
    case True
    then obtain a b where "split_on CHR '':'' r = [a, b]" using list2_cases by blast
    with assms \<open>CHR '':'' \<in> set r\<close> show ?thesis by (auto simp: parse_scripture_reference_def)
  next
    case False
    with assms \<open>CHR '':'' \<in> set r\<close> show ?thesis
      by (auto simp: parse_scripture_reference_def split: list.splits)
  qed
qed

lemma create_reading_Inr:
  assumes "create_reading b r = Inr v"
  shows "\<exists>c vs. v = JObj [(''book'', JStr b), (''chapters'', JStr c), (''verses'', JStr vs)]"
proof -
  from assms obtain d where d: "parse_scripture_reference r = Inr d"
    by (auto simp: create_reading_eq split: sum.splits)
  from parse_scripture_reference_Inr [OF d] obtain c vs where
    "d = JObj [(''chapters'', JStr c), (''verses'', JStr vs)]" by blast
  with assms d show ?thesis by (auto simp: create_reading_eq subscript_def)
qed

lemma create_reading_is_reading: "create_reading b r = Inr v \<Longrightarrow> is_reading v"
  by (drule create_reading_Inr) (auto simp: is_reading_def is_str_def)

lemma is_reading_truthy: "is_reading v \<Longrightarrow> truthy v"
  by (cases v) (auto simp: is_reading_def)

lemma first_block_eq:
  "i + 1 < length parts \<Longrightarrow>
     first_block parts i =
       bindE (create_reading (parts ! i) (parts ! (i + 1))) (\<lambda>fr. Inr (fr, i + 2))"
  by (simp add: first_block_def)

lemma second_block_none:
  "length parts \<le> i \<Longrightarrow> second_block parts i = Inr (JNull, JNull)"
  by (simp add: second_block_def)

lemma second_block_poem:
  "i + 1 < length parts \<Longrightarrow> py_lower (parts ! i) \<in> set poem_books \<Longrightarrow>
     second_block parts i =
       bindE (create_reading (parts ! i) (parts ! (i + 1))) (\<lambda>p. Inr (JNull, p))"
  by (simp add: second_block_def)

lemma second_block_second:
  "i + 1 < length parts \<Longrightarrow> py_lower (parts ! i) \<notin> set poem_books \<Longrightarrow>
   length parts \<le> i + 2 \<Longrightarrow>
     second_block parts i =
       bindE (create_reading (parts ! i) (parts ! (i + 1))) (\<lambda>sr. Inr (sr, JNull))"
  by (simp add: second_block_def)

lemma second_block_both:
  "i + 3 < length parts \<Longrightarrow> py_lower (parts ! i) \<notin> set poem_books \<Longrightarrow>
     second_block parts i =
       bindE (create_reading (parts ! i) (parts ! (i + 1))) (\<lambda>sr.
       bindE (create_reading (parts ! (i + 2)) (parts ! (i + 3))) (\<lambda>p. Inr (sr, p)))"
  by (simp add: second_block_def)

lemma second_block_dangling:
  "length parts = i + 1 \<Longrightarrow> second_block parts i = Inl IndexError"
  by (simp add: second_block_def index_out)

lemma second_block_dangling_third:
  "length parts = i + 3 \<Longrightarrow> py_lower (parts ! i) \<notin> set poem_books \<Longrightarrow>
     second_block parts i =
       bindE (create_reading (parts ! i) (parts ! (i + 1))) (\<lambda>sr. Inl IndexError)"
  by (simp add: second_block_def index_out)

lemma process_day_line_eq:
  "4 \<le> length parts \<Longrightarrow>
     process_day_line p parts =
       bindE (py_int (parts ! 1)) (\<lambda>day_number.
       bindE (create_reading (parts ! 2) (parts ! 3)) (\<lambda>first_reading.
       bindE (second_block parts 4) (\<lambda>(second_reading, poem).
         Inr (Some (JObj
            [(''day'', JInt day_number),
             (''period'', JStr p),
             (''first_reading'', first_reading),
             (''second_reading'',
                if truthy second_reading then second_reading else JStr ''none''),
             (''poem'', poem)])))))"
  by (simp add: process_day_line_def first_block_def bindE_def split: sum.splits)

lemma second_block_Inr:
  assumes "second_block parts i = Inr (sr, pm)"
  shows "(length parts \<le> i \<and> sr = JNull \<and> pm = JNull)
       \<or> (i + 1 < length parts \<and> py_lower (parts ! i) \<in> set poem_books \<and> sr = JNull
            \<and> create_reading (parts ! i) (parts ! (i + 1)) = Inr pm)
       \<or> (length parts = i + 2 \<and> py_lower (parts ! i) \<notin> set poem_books
            \<and> create_reading (parts ! i) (parts ! (i + 1)) = Inr sr \<and> pm = JNull)
       \<or> (i + 3 < length parts \<and> py_lower (parts ! i) \<notin> set poem_books
            \<and> create_reading (parts ! i) (parts ! (i + 1)) = Inr sr
            \<and> create_reading (parts ! (i + 2)) (parts ! (i + 3)) = Inr pm)"
proof -
  consider (none) "length parts \<le> i" | (dangling) "length parts = i + 1"
    | (poem) "i + 1 < length parts" "py_lower (parts ! i) \<in> set poem_books"
    | (second) "length parts = i + 2" "py_lower (parts ! i) \<notin> set poem_books"
    | (third) "length parts = i + 3" "py_lower (parts ! i) \<notin> set poem_books"
    | (both) "i + 3 < length parts" "py_lower (parts ! i) \<notin> set poem_books"
    by linarith
  then show ?thesis
  proof cases
    case none
    with assms show ?thesis by (simp add: second_block_none)
  next
    case dangling
    with assms show ?thesis by (simp add: second_block_dangling)
  next
    case poem
    with assms show ?thesis by (auto simp: second_block_poem bindE_eq_Inr)
  next
    case second
    with assms show ?thesis by (auto simp: second_block_second bindE_eq_Inr)
  next
    case third
    with assms show ?thesis by (auto simp: second_block_dangling_third bindE_eq_Inr)
  next
    case both
    with assms show ?thesis by (auto simp: second_block_both bindE_eq_Inr)
  qed
qed

lemma second_block_shape:
  assumes "second_block parts i = Inr (sr, pm)"
  shows "(sr = JNull \<or> is_reading sr) \<and> (pm = JNull \<or> is_reading pm)"
  using second_block_Inr [OF assms] by (auto dest: create_reading_is_reading)

lemma process_day_line_short: "length parts < 4 \<Longrightarrow> process_day_line p parts = Inr None"
  by (simp add: process_day_line_def)

lemma process_day_line_Some:
  assumes "process_day_line p parts = Inr (Some rec)"
  shows "4 \<le> length parts \<and>
         (\<exists>d fr sr pm. py_int (parts ! 1) = Inr d
            \<and> create_reading (parts ! 2) (parts ! 3) = Inr fr
            \<and> second_block parts 4 = Inr (sr, pm)
            \<and> rec = JObj [(''day'', JInt d), (''period'', JStr p), (''first_reading'', fr),
                   (''second_reading'', if truthy sr then sr else JStr ''none''),
                   (''poem'', pm)])"
proof (cases "length parts < 4")
  case True
  with assms show ?thesis by (simp add: process_day_line_short)
next
  case False
  then have len: "4 \<le> length parts" by simp
  from assms obtain d fr x where
    "py_int (parts ! 1) = Inr d" "create_reading (parts ! 2) (parts ! 3) = Inr fr"
    "second_block parts 4 = Inr x"
    "(case x of (sr, pm) \<Rightarrow> Inr (Some (JObj [(''day'', JInt d), (''period'', JStr p),
        (''first_reading'', fr),
        (''second_reading'', if truthy sr then sr else JStr ''none''), (''poem'', pm)])))
      = (Inr (Some rec) :: py_error + json option)"
    unfolding process_day_line_eq [OF len] bindE_eq_Inr by blast
  then show ?thesis using len by (cases x) auto
qed

lemma process_day_line_emits:
  assumes len: "4 \<le> length parts"
    and day: "py_int (parts ! 1) = Inr d"
    and l5: "length parts \<noteq> 5"
    and l7: "length parts = 7 \<longrightarrow> py_lower (parts ! 4) \<in> set poem_books"
    and c3: "count_list (parts ! 3) CHR '':'' \<le> 1"
    and c5: "4 < length parts \<longrightarrow> count_list (parts ! 5) CHR '':'' \<le> 1"
    and c7: "6 < length parts \<and> py_lower (parts ! 4) \<notin> set poem_books \<longrightarrow>
               count_list (parts ! 7) CHR '':'' \<le> 1"
  shows "\<exists>fr sr pm. process_day_line p parts =
           Inr (Some (JObj [(''day'', JInt d), (''period'', JStr p), (''first_reading'', fr),
                   (''second_reading'', sr), (''poem'', pm)]))
           \<and> create_reading (parts ! 2) (parts ! 3) = Inr fr"
proof -
  from create_reading_total [OF c3] obtain fr where
    fr: "create_reading (parts ! 2) (parts ! 3) = Inr fr" by blast
  have "\<exists>sr pm. second_block parts 4 = Inr (sr, pm)"
  proof -
    consider (none) "length parts = 4"
      | (poem) "5 < length parts" "py_lower (parts ! 4) \<in> set poem_books"
      | (second) "length parts = 6" "py_lower (parts ! 4) \<notin> set poem_books"
      | (both) "7 < length parts" "py_lower (parts ! 4) \<notin> set poem_books"
      using len l5 l7 by (cases "py_lower (parts ! 4) \<in> set poem_books") linarith+
    then show ?thesis
    proof cases
      case none
      then show ?thesis by (simp add: second_block_none)
    next
      case poem
      with c5 have "count_list (parts ! 5) CHR '':'' \<le> 1" by simp
      from create_reading_total [OF this] obtain pm where
        "create_reading (parts ! 4) (parts ! 5) = Inr pm" by blast
      with poem show ?thesis by (simp add: second_block_poem)
    next
      case second
      with c5 have "count_list (parts ! 5) CHR '':'' \<le> 1" by simp
      from create_reading_total [OF this] obtain sr where
        "create_reading (parts ! 4) (parts ! 5) = Inr sr" by blast
      with second show ?thesis by (simp add: second_block_second)
    next
      case both
      with c5 have "count_list (parts ! 5) CHR '':'' \<le> 1" by simp
      from create_reading_total [OF this] obtain sr where
        sr: "create_reading (parts ! 4) (parts ! 5) = Inr sr" by blast
      from both c7 have "count_list (parts ! 7) CHR '':'' \<le> 1" by simp
      from create_reading_total [OF this] obtain pm where
        "create_reading (parts ! 6) (parts ! 7) = Inr pm" by blast
      with both sr show ?thesis by (simp add: second_block_both)
    qed
  qed
  then obtain sr pm where "second_block parts 4 = Inr (sr, pm)" by blast
  with fr day show ?thesis by (simp add: process_day_line_eq [OF len])
qed

lemma split_ws_nonempty: "cur \<noteq> [] \<or> (\<exists>c\<in>set s. \<not> is_space c) \<Longrightarrow> split_ws s cur \<noteq> []"
  by (induction s arbitrary: cur) auto

lemma split_ws_tokens: "t \<in> set (split_ws s cur) \<Longrightarrow> t \<noteq> []"
  by (induction s arbitrary: cur) (auto split: if_splits)

lemma tokens_eq: "tokens s = py_split s"
  unfolding tokens_def py_split_def
  by (rule filter_True) (auto dest: split_ws_tokens)

lemma tokens_Nil [simp]: "tokens [] = []"
  by (simp add: tokens_def py_split_def)

lemma py_strip_last: "py_strip s \<noteq> [] \<Longrightarrow> \<not> is_space (last (py_strip s))"
proof -
  assume a: "py_strip s \<noteq> []"
  let ?u = "dropWhile is_space (rev (dropWhile is_space s))"
  from a have ne: "?u \<noteq> []" by (simp add: py_strip_def)
  then have "\<not> is_space (hd ?u)" by (rule hd_dropWhile)
  moreover have "last (py_strip s) = hd ?u"
    using ne by (simp add: py_strip_def last_rev)
  ultimately show ?thesis by simp
qed

lemma py_strip_hd: "py_strip s \<noteq> [] \<Longrightarrow> \<not> is_space (hd (py_strip s))"
proof -
  assume a: "py_strip s \<noteq> []"
  let ?t = "dropWhile is_space s"
  let ?u = "dropWhile is_space (rev ?t)"
  from a have ne: "?u \<noteq> []" by (simp add: py_strip_def)
  then have tne: "?t \<noteq> []" by (cases "?t") simp_all
  have nsp: "\<not> is_space (hd ?t)" using tne by (rule hd_dropWhile)
  have "hd ?t \<in> set (rev ?t)" using tne by simp
  then have "last ?u = last (rev ?t)" using nsp by (rule dropWhile_last)
  then have "hd (py_strip s) = hd ?t" by (simp add: py_strip_def hd_rev last_rev)
  with nsp show ?thesis by simp
qed

lemma py_strip_idem [simp]: "py_strip (py_strip s) = py_strip s"
proof -
  have 1: "dropWhile is_space (py_strip s) = py_strip s"
    using py_strip_hd [of s] unfolding dropWhile_eq_self_iff by blast
  have "rev (py_strip s) = dropWhile is_space (rev (dropWhile is_space s))"
    by (simp add: py_strip_def)
  then have "dropWhile is_space (rev (py_strip s)) = rev (py_strip s)"
    by simp
  with 1 show ?thesis by (simp add: py_strip_def [of "py_strip s"])
qed

lemma tokens_nonblank: "py_strip s \<noteq> [] \<Longrightarrow> tokens (py_strip s) \<noteq> []"
proof -
  assume a: "py_strip s \<noteq> []"
  then have "hd (py_strip s) \<in> set (py_strip s)" by simp
  with py_strip_hd [OF a] have "\<exists>c\<in>set (py_strip s). \<not> is_space c" by blast
  then show ?thesis by (simp add: tokens_eq py_split_def split_ws_nonempty)
qed

lemma tokens_blank: "tokens (py_strip s) \<noteq> [] \<Longrightarrow> py_strip s \<noteq> []"
  by auto

lemma process_line_blank: "py_strip raw = [] \<Longrightarrow> process_line st raw = st"
  by (simp add: process_line_def)

lemma process_line_header:
  assumes "tokens (py_strip raw) \<noteq> []" "py_lower (tokens (py_strip raw) ! 0) \<noteq> ''day''"
  shows "process_line st raw =
           st\<lparr>current_period := py_strip raw,
              logging := logging st @ [Log INFO (''New period detected: '' @ py_strip raw)]\<rparr>"
proof -
  from assms(1) have "py_strip raw \<noteq> []" by auto
  with assms show ?thesis by (simp add: process_line_def Let_def)
qed

lemma process_line_day:
  assumes "tokens (py_strip raw) \<noteq> []" "py_lower (tokens (py_strip raw) ! 0) = ''day''"
  shows "process_line st raw =
           (case process_day_line (current_period st) (tokens (py_strip raw)) of
              Inr None \<Rightarrow>
                st\<lparr>logging := logging st @
                  [Log WARNING (''Skipping malformed line: '' @ py_strip raw)]\<rparr>
            | Inr (Some day_data) \<Rightarrow> st\<lparr>result := result st @ [day_data]\<rparr>
            | Inl e \<Rightarrow>
                st\<lparr>logging := logging st @
                  [LogExc ERROR
                     (''Error processing line '' @ [CHR 0x27] @ py_strip raw @ [CHR 0x27] @ '': '')
                     e]\<rparr>)"
proof -
  from assms(1) have "py_strip raw \<noteq> []" by auto
  with assms show ?thesis by (simp add: process_line_def Let_def)
qed

lemma subscript_day_data [simp]:
  "subscript (JObj [(''day'', a), (''period'', b), (''first_reading'', c),
                    (''second_reading'', d), (''poem'', e)]) ''day'' = Inr a"
  "subscript (JObj [(''day'', a), (''period'', b), (''first_reading'', c),
                    (''second_reading'', d), (''poem'', e)]) ''period'' = Inr b"
  "subscript (JObj [(''day'', a), (''period'', b), (''first_reading'', c),
                    (''second_reading'', d), (''poem'', e)]) ''first_reading'' = Inr c"
  "subscript (JObj [(''day'', a), (''period'', b), (''first_reading'', c),
                    (''second_reading'', d), (''poem'', e)]) ''second_reading'' = Inr d"
  "subscript (JObj [(''day'', a), (''period'', b), (''first_reading'', c),
                    (''second_reading'', d), (''poem'', e)]) ''poem'' = Inr e"
  by (simp_all add: subscript_def)


lemma process_line_result:
  "result (process_line st raw) = result st
   \<or> (\<exists>rec. tokens (py_strip raw) \<noteq> [] \<and> py_lower (tokens (py_strip raw) ! 0) = ''day''
         \<and> process_day_line (current_period st) (tokens (py_strip raw)) = Inr (Some rec)
         \<and> result (process_line st raw) = result st @ [rec])"
proof (cases "tokens (py_strip raw) = []")
  case True
  then have "py_strip raw = []" using tokens_nonblank by blast
  then show ?thesis by (simp add: process_line_blank)
next
  case ne: False
  show ?thesis
  proof (cases "py_lower (tokens (py_strip raw) ! 0) = ''day''")
    case False
    with ne show ?thesis by (simp add: process_line_header)
  next
    case True
    show ?thesis
      unfolding process_line_day [OF ne True]
      using ne True by (auto split: sum.splits option.splits)
  qed
qed

lemma process_line_period:
  "current_period (process_line st raw) =
     (if tokens (py_strip raw) \<noteq> [] \<and> py_lower (tokens (py_strip raw) ! 0) \<noteq> ''day''
      then py_strip raw else current_period st)"
proof (cases "tokens (py_strip raw) = []")
  case True
  then have "py_strip raw = []" using tokens_nonblank by blast
  then show ?thesis using True by (simp add: process_line_blank)
next
  case ne: False
  show ?thesis
  proof (cases "py_lower (tokens (py_strip raw) ! 0) = ''day''")
    case False
    with ne show ?thesis by (simp add: process_line_header)
  next
    case True
    show ?thesis
      unfolding process_line_day [OF ne True]
      using ne True by (auto split: sum.splits option.splits)
  qed
qed

lemma process_line_result_eq:
  "result (process_line st raw) =
     result st @
       (if tokens (py_strip raw) \<noteq> [] \<and> py_lower (tokens (py_strip raw) ! 0) = ''day''
        then (case process_day_line (current_period st) (tokens (py_strip raw)) of
                Inr (Some rec) \<Rightarrow> [rec] | _ \<Rightarrow> [])
        else [])"
proof (cases "tokens (py_strip raw) = []")
  case True
  then have "py_strip raw = []" using tokens_nonblank by blast
  then show ?thesis using True by (simp add: process_line_blank)
next
  case ne: False
  show ?thesis
  proof (cases "py_lower (tokens (py_strip raw) ! 0) = ''day''")
    case False
    with ne show ?thesis by (simp add: process_line_header)
  next
    case True
    show ?thesis
      unfolding process_line_day [OF ne True]
      using ne True by (simp split: sum.splits option.splits)
  qed
qed

text \<open>What a line does to the result and the period depends on these two only.\<close>

lemma process_line_same:
  assumes "result st = result st'" "current_period st = current_period st'"
  shows "result (process_line st raw) = result (process_line st' raw)
       \<and> current_period (process_line st raw) = current_period (process_line st' raw)"
  by (simp only: process_line_result_eq process_line_period assms)

lemma foldl_process_line_same:
  assumes "result st = result st'" "current_period st = current_period st'"
  shows "result (foldl process_line st ls) = result (foldl process_line st' ls)
       \<and> current_period (foldl process_line st ls) = current_period (foldl process_line st' ls)"
  using assms
proof (induction ls arbitrary: st st')
  case Nil
  then show ?case by simp
next
  case (Cons l ls)
  from process_line_same [OF Cons.prems, of l]
  have "result (process_line st l) = result (process_line st' l)"
    and "current_period (process_line st l) = current_period (process_line st' l)"
    by simp_all
  from Cons.IH [OF this] show ?case by simp
qed

text \<open>The initial state of \<open>parse_lines\<close>, whatever the number of lines it logs.\<close>

lemma parse_lines_foldl:
  "result (parse_lines ls) =
     result (foldl process_line \<lparr>result = [], current_period = [], logging = lg\<rparr> ls)
   \<and> current_period (parse_lines ls) =
     current_period (foldl process_line \<lparr>result = [], current_period = [], logging = lg\<rparr> ls)"
  unfolding parse_lines_def by (rule foldl_process_line_same) simp_all

lemma parse_lines_snoc:
  "result (parse_lines (ls @ [raw])) = result (process_line (parse_lines ls) raw)
   \<and> current_period (parse_lines (ls @ [raw])) =
       current_period (process_line (parse_lines ls) raw)"
proof -
  let ?st = "foldl process_line \<lparr>result = [], current_period = [],
      logging = [Log INFO (''Read '' @ str_nat (length (ls @ [raw])) @ '' lines from the file.'')]\<rparr> ls"
  have 1: "parse_lines (ls @ [raw]) = process_line ?st raw"
    by (simp add: parse_lines_def)
  have 2: "result ?st = result (parse_lines ls)"
    and 3: "current_period ?st = current_period (parse_lines ls)"
    using parse_lines_foldl [of ls "[Log INFO (''Read '' @ str_nat (length (ls @ [raw]))
      @ '' lines from the file.'')]"] by simp_all
  show ?thesis unfolding 1 by (rule process_line_same [OF 2 3])
qed

lemma day_record_second_reading:
  assumes "process_day_line p parts = Inr (Some rec)"
  shows "\<exists>v. subscript rec ''second_reading'' = Inr v \<and> (v = JStr ''none'' \<or> is_reading v)"
proof -
  from process_day_line_Some [OF assms] obtain d fr sr pm where
    sb: "second_block parts 4 = Inr (sr, pm)"
    and r: "rec = JObj [(''day'', JInt d), (''period'', JStr p), (''first_reading'', fr),
                   (''second_reading'', if truthy sr then sr else JStr ''none''),
                   (''poem'', pm)]"
    by blast
  from second_block_shape [OF sb] have "sr = JNull \<or> is_reading sr" by simp
  then show ?thesis
  proof
    assume "sr = JNull"
    with r show ?thesis by simp
  next
    assume "is_reading sr"
    with r show ?thesis by (simp add: is_reading_truthy)
  qed
qed

lemma day_record_period:
  assumes "process_day_line p parts = Inr (Some rec)"
  shows "subscript rec ''period'' = Inr (JStr p)"
  using process_day_line_Some [OF assms] by auto

lemma foldl_process_line_invariant:
  assumes step: "\<And>p parts rec. process_day_line p parts = Inr (Some rec) \<Longrightarrow> P rec"
    and init: "\<forall>rec\<in>set (result st). P rec"
  shows "\<forall>rec\<in>set (result (foldl process_line st ls)). P rec"
  using init
proof (induction ls arbitrary: st)
  case Nil
  then show ?case by simp
next
  case (Cons l ls)
  have "\<forall>rec\<in>set (result (process_line st l)). P rec"
    using process_line_result [of st l] Cons.prems step by auto
  from Cons.IH [OF this] show ?case by simp
qed

text \<open>Lines without a header keep the period and give records of that period.\<close>

lemma foldl_process_line_no_header:
  assumes "\<forall>l\<in>set ls. tokens (py_strip l) = [] \<or> py_lower (tokens (py_strip l) ! 0) = ''day''"
  shows "current_period (foldl process_line st ls) = current_period st
       \<and> (\<exists>new. result (foldl process_line st ls) = result st @ new
              \<and> (\<forall>rec\<in>set new. subscript rec ''period'' = Inr (JStr (current_period st))))"
  using assms
proof (induction ls arbitrary: st)
  case Nil
  then show ?case by simp
next
  case (Cons l ls)
  let ?st = "process_line st l"
  from Cons.prems have l: "tokens (py_strip l) = [] \<or> py_lower (tokens (py_strip l) ! 0) = ''day''"
    and ls: "\<forall>l\<in>set ls. tokens (py_strip l) = [] \<or> py_lower (tokens (py_strip l) ! 0) = ''day''"
    by simp_all
  from l have per: "current_period ?st = current_period st"
    by (auto simp: process_line_period)
  from process_line_result [of st l] obtain new1 where
    new1: "result ?st = result st @ new1"
      "\<forall>rec\<in>set new1. subscript rec ''period'' = Inr (JStr (current_period st))"
  proof
    assume a: "result ?st = result st"
    show ?thesis by (rule that [of "[]"]) (simp_all add: a)
  next
    assume "\<exists>rec. tokens (py_strip l) \<noteq> [] \<and> py_lower (tokens (py_strip l) ! 0) = ''day''
         \<and> process_day_line (current_period st) (tokens (py_strip l)) = Inr (Some rec)
         \<and> result ?st = result st @ [rec]"
    then obtain rec where
      "process_day_line (current_period st) (tokens (py_strip l)) = Inr (Some rec)"
      "result ?st = result st @ [rec]" by blast
    then show ?thesis using day_record_period by (intro that [of "[rec]"]) simp_all
  qed
  from Cons.IH [OF ls, of ?st] obtain new2 where
    p2: "current_period (foldl process_line ?st ls) = current_period ?st"
    and new2: "result (foldl process_line ?st ls) = result ?st @ new2"
      "\<forall>rec\<in>set new2. subscript rec ''period'' = Inr (JStr (current_period ?st))"
    by blast
  have "result (foldl process_line st (l # ls)) = result st @ (new1 @ new2)"
    using new1(1) new2(1) by simp
  moreover have "\<forall>rec\<in>set (new1 @ new2). subscript rec ''period'' = Inr (JStr (current_period st))"
    using new1(2) new2(2) per by auto
  ultimately show ?case using p2 per by (simp del: append_assoc)
qed

text \<open>A day line that gives no record changes neither the result nor the period.\<close>

lemma process_line_dropped:
  assumes "tokens (py_strip raw) \<noteq> []" "py_lower (tokens (py_strip raw) ! 0) = ''day''"
    and "\<forall>rec. process_day_line (current_period st) (tokens (py_strip raw)) \<noteq> Inr (Some rec)"
  shows "result (process_line st raw) = result st
       \<and> current_period (process_line st raw) = current_period st"
  using assms by (auto simp: process_line_result_eq process_line_period split: sum.splits option.splits)

lemma parse_lines_append:
  "result (parse_lines (xs @ ys)) = result (foldl process_line (parse_lines xs) ys)
   \<and> current_period (parse_lines (xs @ ys)) =
       current_period (foldl process_line (parse_lines xs) ys)"
proof -
  let ?st = "foldl process_line \<lparr>result = [], current_period = [],
      logging = [Log INFO (''Read '' @ str_nat (length (xs @ ys)) @ '' lines from the file.'')]\<rparr> xs"
  have 1: "parse_lines (xs @ ys) = foldl process_line ?st ys"
    by (simp add: parse_lines_def)
  have 2: "result ?st = result (parse_lines xs)"
    and 3: "current_period ?st = current_period (parse_lines xs)"
    using parse_lines_foldl [of xs "[Log INFO (''Read '' @ str_nat (length (xs @ ys))
      @ '' lines from the file.'')]"] by simp_all
  show ?thesis unfolding 1 by (rule foldl_process_line_same [OF 2 3])
qed

lemma parse_lines_drop_line:
  assumes ne: "tokens (py_strip raw) \<noteq> []"
    and day: "py_lower (tokens (py_strip raw) ! 0) = ''day''"
    and no: "\<forall>rec. process_day_line (current_period (parse_lines pre)) (tokens (py_strip raw))
               \<noteq> Inr (Some rec)"
  shows "result (parse_lines (pre @ raw # post)) = result (parse_lines (pre @ post))"
proof -
  let ?st = "parse_lines pre"
  from process_line_dropped [OF ne day no]
  have r: "result (process_line ?st raw) = result ?st"
    and p: "current_period (process_line ?st raw) = current_period ?st" by simp_all
  have "result (parse_lines (pre @ raw # post)) =
          result (foldl process_line (process_line ?st raw) post)"
    using parse_lines_append [of pre "raw # post"] by simp
  also have "\<dots> = result (foldl process_line ?st post)"
    using foldl_process_line_same [OF r p, of post] by simp
  also have "\<dots> = result (parse_lines (pre @ post))"
    using parse_lines_append [of pre post] by simp
  finally show ?thesis .
qed

lemma parse_text_to_json_eq:
  "parse_text_to_json (Inr text) =
     Inr (JArr (result (parse_lines (readlines text))), logging (parse_lines (readlines text)))"
  by (simp add: parse_text_to_json_def Let_def)

lemma bindE_raises:
  assumes "\<And>v. m = Inr v \<Longrightarrow> \<exists>e. f v = Inl e"
  shows "\<exists>e. bindE m f = Inl e"
  using assms by (cases m) simp_all

lemma subscript_JNull [simp]: "subscript JNull k = Inl TypeError"
  by (simp add: subscript_def)

lemma format_daily_message_poem_null:
  assumes "subscript entry ''poem'' = Inr JNull"
  shows "\<exists>err. format_daily_message entry date = Inl err"
  unfolding format_daily_message_def Let_def
  by (intro bindE_raises) (simp add: assms)

lemma the_strs_not_str:
  assumes "v \<in> set items" "\<not> is_str v"
  shows "the_strs items = Inl TypeError"
  using assms
proof (induction items)
  case Nil
  then show ?case by simp
next
  case (Cons a items)
  show ?case
  proof (cases a)
    case (JStr s)
    with Cons have "the_strs items = Inl TypeError" by (auto simp: is_str_def)
    with JStr show ?thesis by simp
  qed simp_all
qed

lemma format_daily_message_second_not_str:
  assumes "subscript entry ''second_reading'' = Inr sr" "\<not> is_str sr"
  shows "\<exists>err. format_daily_message entry date = Inl err"
proof -
  from assms(2) have ne: "sr \<noteq> JStr ''none''" by (auto simp: is_str_def)
  have j: "py_join sep [x1, x2, x3, x4, x5, x6, a, b, sr, y1, y2, y3] = Inl TypeError"
    for sep x1 x2 x3 x4 x5 x6 a b y1 y2 y3
    using the_strs_not_str [of sr "[x1, x2, x3, x4, x5, x6, a, b, sr, y1, y2, y3]"] assms(2)
    by (simp add: py_join_def)
  show ?thesis
    unfolding format_daily_message_def Let_def
    by (intro bindE_raises) (clarsimp simp: assms(1) ne j)
qed

lemma scan_entries_skip:
  assumes "\<forall>x\<in>set pre. \<exists>d. subscript x ''day'' = Inr d \<and> \<not> py_eq_int d n"
  shows "scan_entries e n (pre @ rest) st = scan_entries e n rest st"
  using assms by (induction pre) auto

lemma scan_entries_match:
  assumes "subscript entry ''day'' = Inr d" "py_eq_int d n"
  shows "scan_entries e n (entry # rest) st = scan_entries e n [entry] st"
  using assms by simp

lemma scan_entries_sent:
  "sent (snd (scan_entries e n es st)) = sent st
   \<or> (\<exists>entry message. entry \<in> set es \<and> format_daily_message entry (today e) = Inr message
        \<and> sent (snd (scan_entries e n es st)) = sent st @ [message]
        \<and> fst (scan_entries e n es st) = None)"
  by (induction es) (auto simp: log_to_def split: sum.splits option.splits)

lemma scan_entries_raise:
  "scan_entries e n es st = (Some err, st1) \<Longrightarrow> st1 = st"
  by (induction es) (auto simp: log_to_def split: sum.splits option.splits if_splits)

lemma send_body_loaded:
  assumes "disk e = Inr (JArr es)"
  shows "send_body e st =
           scan_entries e (tm_yday (today e)) es
             (log_to (Log INFO (''Successfully loaded Bible data from '' @ json_path e)) st)"
  using assms by (simp add: send_body_def load_bible_data_def py_iter_def Let_def)

lemma send_body_raise:
  assumes "send_body e st = (Some err, st1)"
  shows "sent st1 = sent st"
proof (cases "disk e")
  case (Inl x)
  with assms show ?thesis
    by (auto simp: send_body_def load_bible_data_def log_to_def split: if_splits)
next
  case (Inr data)
  let ?st = "log_to (Log INFO (''Successfully loaded Bible data from '' @ json_path e)) st"
  show ?thesis
  proof (cases "py_iter data")
    case (Inl x)
    with Inr assms show ?thesis
      by (auto simp: send_body_def load_bible_data_def log_to_def Let_def)
  next
    case es: (Inr es)
    with Inr assms have "scan_entries e (tm_yday (today e)) es ?st = (Some err, st1)"
      by (simp add: send_body_def load_bible_data_def Let_def)
    then have "st1 = ?st" by (rule scan_entries_raise)
    then show ?thesis by (simp add: log_to_def)
  qed
qed

lemma send_bible_message_fst: "fst (send_bible_message e st) = None"
  by (simp add: send_bible_message_def split: prod.splits option.splits)

lemma scan_entries_no_match:
  assumes "\<forall>x\<in>set es. \<exists>d. subscript x ''day'' = Inr d \<and> \<not> py_eq_int d n"
  shows "scan_entries e n es st =
           (None, log_to (Log WARNING (''No reading found for day '' @ str_int n)) st)"
  using scan_entries_skip [OF assms, of e "[]" st] by simp

lemma day_record_four_tokens:
  assumes len: "length parts = 4" and rec: "process_day_line p parts = Inr (Some rec)"
  shows "\<exists>d b c v. rec = JObj [(''day'', JInt d), (''period'', JStr p),
            (''first_reading'', JObj [(''book'', JStr b), (''chapters'', JStr c),
                                      (''verses'', JStr v)]),
            (''second_reading'', JStr ''none''), (''poem'', JNull)]"
proof -
  from process_day_line_Some [OF rec] obtain d fr sr pm where
    fr: "create_reading (parts ! 2) (parts ! 3) = Inr fr"
    and sb: "second_block parts 4 = Inr (sr, pm)"
    and r: "rec = JObj [(''day'', JInt d), (''period'', JStr p), (''first_reading'', fr),
                   (''second_reading'', if truthy sr then sr else JStr ''none''),
                   (''poem'', pm)]"
    by blast
  from sb len have "sr = JNull" "pm = JNull" by (simp_all add: second_block_none)
  moreover from create_reading_Inr [OF fr] obtain c v where
    "fr = JObj [(''book'', JStr (parts ! 2)), (''chapters'', JStr c), (''verses'', JStr v)]"
    by blast
  ultimately show ?thesis using r by simp
qed

lemma format_daily_message_four_tokens:
  assumes "length parts = 4" "process_day_line p parts = Inr (Some rec)"
  shows "format_daily_message rec date = Inl TypeError"
proof -
  from day_record_four_tokens [OF assms] obtain d b c v where
    "rec = JObj [(''day'', JInt d), (''period'', JStr p),
            (''first_reading'', JObj [(''book'', JStr b), (''chapters'', JStr c),
                                      (''verses'', JStr v)]),
            (''second_reading'', JStr ''none''), (''poem'', JNull)]"
    by blast
  then show ?thesis
    by (simp add: format_daily_message_def Let_def subscript_def)
qed

lemma readlines_line:
  "CHR 0x0A \<notin> set a \<Longrightarrow> readlines (a @ CHR 0x0A # rest) = (a @ [CHR 0x0A]) # readlines rest"
  by (induction a) auto

lemma readlines_last:
  "a \<noteq> [] \<Longrightarrow> CHR 0x0A \<notin> set a \<Longrightarrow> readlines a = [a]"
proof (induction a)
  case Nil
  then show ?case by simp
next
  case (Cons c a)
  then show ?case by (cases a) auto
qed

lemma readlines_append:
  "x = [] \<or> last x = CHR 0x0A \<Longrightarrow> readlines (x @ y) = readlines x @ readlines y"
proof (induction x)
  case Nil
  then show ?case by simp
next
  case (Cons c x)
  show ?case
  proof (cases "x = []")
    case True
    with Cons.prems show ?thesis by simp
  next
    case False
    with Cons.prems have l: "last x = CHR 0x0A" by simp
    with False have ne: "readlines x \<noteq> []" by (cases x) (auto split: list.splits)
    from Cons.IH l have ih: "readlines (x @ y) = readlines x @ readlines y" by simp
    show ?thesis
    proof (cases "c = CHR 0x0A")
      case True
      then show ?thesis by (simp add: ih)
    next
      case False
      with ne show ?thesis by (cases "readlines x") (simp_all add: ih)
    qed
  qed
qed

lemma foldl_process_line_records:
  "result (foldl process_line st ls) = result st @ processed_records (current_period st) ls"
proof (induction ls arbitrary: st)
  case Nil
  then show ?case by simp
next
  case (Cons l ls)
  have step: "result (process_line st l) @
          processed_records (current_period (process_line st l)) ls =
        result st @ processed_records (current_period st) (l # ls)"
  proof (cases "py_strip l = []")
    case True
    then show ?thesis by (simp add: process_line_blank)
  next
    case False
    then have ne: "tokens (py_strip l) \<noteq> []" by (rule tokens_nonblank)
    show ?thesis
      using False ne
      by (simp add: process_line_result_eq process_line_period split: sum.splits option.splits)
  qed
  have "result (foldl process_line st (l # ls)) =
          result (process_line st l) @ processed_records (current_period (process_line st l)) ls"
    using Cons.IH [of "process_line st l"] by simp
  with step show ?case by (simp only:)
qed

lemma parse_lines_records: "result (parse_lines ls) = processed_records [] ls"
  by (simp add: parse_lines_def foldl_process_line_records)

section \<open>The reference parser\<close>

text \<open>
  Claim C4, as amended. A reference token with exactly one colon, that is \<open>a:b\<close> with no
  colon in \<open>a\<close> or in \<open>b\<close>, gives chapters \<open>a\<close> and verses \<open>b\<close>; a token with no colon
  gives chapters the whole token and verses "all". In particular "3:5" gives chapters
  "3" and verses "5", and "3" gives chapters "3" and verses "all".
\<close>

theorem parse_scripture_reference_cases:
  "(CHR '':'' \<notin> set a \<and> CHR '':'' \<notin> set b \<longrightarrow>
      parse_scripture_reference (a @ '':'' @ b) =
        Inr (JObj [(''chapters'', JStr a), (''verses'', JStr b)]))
   \<and> (CHR '':'' \<notin> set r \<longrightarrow>
      parse_scripture_reference r =
        Inr (JObj [(''chapters'', JStr r), (''verses'', JStr ''all'')]))
   \<and> parse_scripture_reference ''3:5'' =
        Inr (JObj [(''chapters'', JStr ''3''), (''verses'', JStr ''5'')])
   \<and> parse_scripture_reference ''3'' =
        Inr (JObj [(''chapters'', JStr ''3''), (''verses'', JStr ''all'')])"
proof -
  have one: "CHR '':'' \<notin> set x \<Longrightarrow> CHR '':'' \<notin> set y \<Longrightarrow>
      parse_scripture_reference (x @ '':'' @ y) =
        Inr (JObj [(''chapters'', JStr x), (''verses'', JStr y)])" for x y
    by (simp add: parse_scripture_reference_def split_on_one)
  have none: "CHR '':'' \<notin> set x \<Longrightarrow>
      parse_scripture_reference x =
        Inr (JObj [(''chapters'', JStr x), (''verses'', JStr ''all'')])" for x
    by (simp add: parse_scripture_reference_def)
  have "parse_scripture_reference (''3'' @ '':'' @ ''5'') =
        Inr (JObj [(''chapters'', JStr ''3''), (''verses'', JStr ''5'')])"
    by (rule one) simp_all
  moreover have "parse_scripture_reference ''3'' =
        Inr (JObj [(''chapters'', JStr ''3''), (''verses'', JStr ''all'')])"
    by (rule none) simp
  ultimately show ?thesis using one none by simp
qed

theorem parse_scripture_reference_cases_witness:
  "CHR '':'' \<notin> set ''12'' \<and> CHR '':'' \<notin> set ''1-4''
   \<and> parse_scripture_reference ''12:1-4'' =
        Inr (JObj [(''chapters'', JStr ''12''), (''verses'', JStr ''1-4'')])
   \<and> CHR '':'' \<notin> set ''7''
   \<and> parse_scripture_reference ''7'' =
        Inr (JObj [(''chapters'', JStr ''7''), (''verses'', JStr ''all'')])"
  using parse_scripture_reference_cases [of "''12''" "''1-4''" "''7''"] by simp

text \<open>
  The claim as stated fails on a token with two colons: the unpacking of the split
  raises ValueError, so no chapters and verses are returned.
\<close>

theorem parse_scripture_reference_counterexample:
  "CHR '':'' \<in> set ''1:2:3'' \<and> parse_scripture_reference ''1:2:3'' = Inl ValueError"
  by (simp add: parse_scripture_reference_def)

section \<open>The plan parser: one day line\<close>

text \<open>
  Claim C1, as amended. Take a day line with at least four tokens whose second token
  parses as an integer \<open>d\<close>, whose readings come in complete pairs as far as the parser
  reads them (not five tokens, and seven tokens only with a psalm or proverb book at
  index 4), and whose reference tokens that the parser reads (index 3, index 5 when it
  exists, index 7 when it exists and the book at index 4 is not a psalm or proverb book)
  hold at most one colon each. Processing that line never raises out of the loop body and
  appends exactly one record for the line to the result: the state changes in nothing
  else, and the record carries day \<open>d\<close> and the current period.
\<close>

theorem day_line_appends_record:
  assumes parts: "parts = tokens (py_strip raw)"
    and len: "4 \<le> length parts"
    and day: "py_lower (parts ! 0) = ''day''"
    and num: "py_int (parts ! 1) = Inr d"
    and l5: "length parts \<noteq> 5"
    and l7: "length parts = 7 \<longrightarrow> py_lower (parts ! 4) \<in> set poem_books"
    and c3: "count_list (parts ! 3) CHR '':'' \<le> 1"
    and c5: "4 < length parts \<longrightarrow> count_list (parts ! 5) CHR '':'' \<le> 1"
    and c7: "6 < length parts \<and> py_lower (parts ! 4) \<notin> set poem_books \<longrightarrow>
               count_list (parts ! 7) CHR '':'' \<le> 1"
  shows "\<exists>rec. process_day_line (current_period st) parts = Inr (Some rec)
           \<and> process_line st raw = st\<lparr>result := result st @ [rec]\<rparr>
           \<and> subscript rec ''day'' = Inr (JInt d)
           \<and> subscript rec ''period'' = Inr (JStr (current_period st))"
proof -
  from process_day_line_emits [OF len num l5 l7 c3 c5 c7, of "current_period st"]
  obtain fr sr pm where
    rec: "process_day_line (current_period st) parts =
            Inr (Some (JObj [(''day'', JInt d), (''period'', JStr (current_period st)),
              (''first_reading'', fr), (''second_reading'', sr), (''poem'', pm)]))"
    by blast
  from len have ne: "tokens (py_strip raw) \<noteq> []" unfolding parts [symmetric] by auto
  have "process_line st raw =
          st\<lparr>result := result st @
            [JObj [(''day'', JInt d), (''period'', JStr (current_period st)),
              (''first_reading'', fr), (''second_reading'', sr), (''poem'', pm)]]\<rparr>"
    using process_line_day [OF ne, of st] day rec unfolding parts [symmetric] by simp
  with rec show ?thesis by (simp add: subscript_def)
qed

text \<open>The theorem at the line "Day 1 Genesis 1:3 Psalm 1", under the period "Law and History".\<close>

theorem day_line_appends_record_witness:
  "4 \<le> length (tokens (py_strip ''Day 1 Genesis 1:3 Psalm 1''))
   \<and> py_lower (tokens (py_strip ''Day 1 Genesis 1:3 Psalm 1'') ! 0) = ''day''
   \<and> py_int (tokens (py_strip ''Day 1 Genesis 1:3 Psalm 1'') ! 1) = Inr 1
   \<and> length (tokens (py_strip ''Day 1 Genesis 1:3 Psalm 1'')) = 6
   \<and> count_list (tokens (py_strip ''Day 1 Genesis 1:3 Psalm 1'') ! 3) CHR '':'' = 1
   \<and> count_list (tokens (py_strip ''Day 1 Genesis 1:3 Psalm 1'') ! 5) CHR '':'' = 0
   \<and> py_lower (tokens (py_strip ''Day 1 Genesis 1:3 Psalm 1'') ! 4) \<in> set poem_books
   \<and> (\<exists>rec. process_line \<lparr>result = [], current_period = ''Law and History'', logging = []\<rparr>
                ''Day 1 Genesis 1:3 Psalm 1''
              = \<lparr>result = [rec], current_period = ''Law and History'', logging = []\<rparr>
            \<and> subscript rec ''day'' = Inr (JInt 1)
            \<and> subscript rec ''period'' = Inr (JStr ''Law and History''))"
proof -
  let ?raw = "''Day 1 Genesis 1:3 Psalm 1''"
  let ?parts = "tokens (py_strip ?raw)"
  let ?st = "\<lparr>result = [], current_period = ''Law and History'', logging = []\<rparr>"
  have len: "length ?parts = 6" by code_simp
  have day: "py_lower (?parts ! 0) = ''day''" by code_simp
  have num: "py_int (?parts ! 1) = Inr 1" by code_simp
  have c3: "count_list (?parts ! 3) CHR '':'' = 1" by code_simp
  have c5: "count_list (?parts ! 5) CHR '':'' = 0" by code_simp
  have poem: "py_lower (?parts ! 4) \<in> set poem_books" by code_simp
  have l4: "4 \<le> length ?parts" and l5: "length ?parts \<noteq> 5" using len by simp_all
  have l7: "length ?parts = 7 \<longrightarrow> py_lower (?parts ! 4) \<in> set poem_books"
    using poem by simp
  have c3': "count_list (?parts ! 3) CHR '':'' \<le> 1" using c3 by simp
  have c5': "4 < length ?parts \<longrightarrow> count_list (?parts ! 5) CHR '':'' \<le> 1"
    using c5 by simp
  have c7': "6 < length ?parts \<and> py_lower (?parts ! 4) \<notin> set poem_books \<longrightarrow>
               count_list (?parts ! 7) CHR '':'' \<le> 1"
    using poem by simp
  have "\<exists>rec. process_day_line (current_period ?st) ?parts = Inr (Some rec)
           \<and> process_line ?st ?raw = ?st\<lparr>result := result ?st @ [rec]\<rparr>
           \<and> subscript rec ''day'' = Inr (JInt 1)
           \<and> subscript rec ''period'' = Inr (JStr (current_period ?st))"
    by (rule day_line_appends_record [OF refl l4 day num l5 l7 c3' c5' c7'])
  then have ex: "\<exists>rec. process_line ?st ?raw
              = \<lparr>result = [rec], current_period = ''Law and History'', logging = []\<rparr>
            \<and> subscript rec ''day'' = Inr (JInt 1)
            \<and> subscript rec ''period'' = Inr (JStr ''Law and History'')"
    by auto
  show ?thesis by (intro conjI l4 day num len c3 c5 poem ex)
qed

text \<open>
  The claim as stated fails on two lines with at least four tokens and a numeric second
  token. In "Day 1 Genesis 1:2:3" the reference has two colons: the body raises ValueError
  and nothing is appended. In "Day 1 Genesis 1 Exodus", with five tokens, the read of the
  token at index 5 raises IndexError and nothing is appended.
\<close>

theorem day_line_total_counterexample:
  "4 \<le> length (tokens (py_strip ''Day 1 Genesis 1:2:3''))
   \<and> py_lower (tokens (py_strip ''Day 1 Genesis 1:2:3'') ! 0) = ''day''
   \<and> py_int (tokens (py_strip ''Day 1 Genesis 1:2:3'') ! 1) = Inr 1
   \<and> process_day_line [] (tokens (py_strip ''Day 1 Genesis 1:2:3'')) = Inl ValueError
   \<and> result (process_line \<lparr>result = [], current_period = [], logging = []\<rparr>
               ''Day 1 Genesis 1:2:3'') = []
   \<and> length (tokens (py_strip ''Day 1 Genesis 1 Exodus'')) = 5
   \<and> py_lower (tokens (py_strip ''Day 1 Genesis 1 Exodus'') ! 0) = ''day''
   \<and> py_int (tokens (py_strip ''Day 1 Genesis 1 Exodus'') ! 1) = Inr 1
   \<and> process_day_line [] (tokens (py_strip ''Day 1 Genesis 1 Exodus'')) = Inl IndexError
   \<and> result (process_line \<lparr>result = [], current_period = [], logging = []\<rparr>
               ''Day 1 Genesis 1 Exodus'') = []"
  by code_simp



section \<open>The plan parser: the whole file\<close>

text \<open>
  Claim C6. The array that \<open>parse_text_to_json\<close> returns is the list \<open>result\<close> after the
  last line, and in every record of it the key second\_reading is present and holds
  either the string "none" or a reading reference (a dict with the keys book, chapters
  and verses, each a string): never null, never absent, never a value of another shape.
\<close>

theorem second_reading_none_or_reference:
  "(\<exists>lg. parse_text_to_json (Inr text) =
           Inr (JArr (result (parse_lines (readlines text))), lg))
   \<and> (\<forall>rec\<in>set (result (parse_lines (readlines text))).
         \<exists>v. subscript rec ''second_reading'' = Inr v \<and> (v = JStr ''none'' \<or> is_reading v))"
proof -
  have "\<forall>rec\<in>set (result (parse_lines lines)).
         \<exists>v. subscript rec ''second_reading'' = Inr v \<and> (v = JStr ''none'' \<or> is_reading v)"
    for lines
    unfolding parse_lines_def
    by (rule foldl_process_line_invariant) (auto dest: day_record_second_reading)
  then show ?thesis by (simp add: parse_text_to_json_eq)
qed

text \<open>The theorem at the record of the line "Day 5 Exodus 2 Matthew 3".\<close>

theorem second_reading_none_or_reference_witness:
  "JObj [(''day'', JInt 5), (''period'', JStr []),
          (''first_reading'',
             JObj [(''book'', JStr ''Exodus''), (''chapters'', JStr ''2''),
                   (''verses'', JStr ''all'')]),
          (''second_reading'',
             JObj [(''book'', JStr ''Matthew''), (''chapters'', JStr ''3''),
                   (''verses'', JStr ''all'')]),
          (''poem'', JNull)]
     \<in> set (result (parse_lines (readlines ''Day 5 Exodus 2 Matthew 3'')))
   \<and> (\<exists>v. subscript (JObj [(''day'', JInt 5), (''period'', JStr []),
          (''first_reading'',
             JObj [(''book'', JStr ''Exodus''), (''chapters'', JStr ''2''),
                   (''verses'', JStr ''all'')]),
          (''second_reading'',
             JObj [(''book'', JStr ''Matthew''), (''chapters'', JStr ''3''),
                   (''verses'', JStr ''all'')]),
          (''poem'', JNull)]) ''second_reading'' = Inr v
        \<and> (v = JStr ''none'' \<or> is_reading v))"
proof -
  let ?rec = "JObj [(''day'', JInt 5), (''period'', JStr []),
          (''first_reading'',
             JObj [(''book'', JStr ''Exodus''), (''chapters'', JStr ''2''),
                   (''verses'', JStr ''all'')]),
          (''second_reading'',
             JObj [(''book'', JStr ''Matthew''), (''chapters'', JStr ''3''),
                   (''verses'', JStr ''all'')]),
          (''poem'', JNull)]"
  have mem: "?rec \<in> set (result (parse_lines (readlines ''Day 5 Exodus 2 Matthew 3'')))"
    by code_simp
  from second_reading_none_or_reference [of "''Day 5 Exodus 2 Matthew 3''"] mem
  have "\<exists>v. subscript ?rec ''second_reading'' = Inr v
        \<and> (v = JStr ''none'' \<or> is_reading v)"
    by blast
  with mem show ?thesis by (intro conjI)
qed

text \<open>
  Claim C9. For every text of the file, \<open>parse_text_to_json\<close> returns, and the array it
  returns is exactly \<open>processed_records\<close> of the lines of the text: the records of the
  lines processed into a record, each kept, in the order of the lines, and nothing else.
  The lines are the pieces of the text up to and with each newline, and the rest after
  the last one. A day line whose processing raises (a non-numeric day token, a malformed
  reference, an incomplete pair) or that has fewer than four tokens is dropped alone: the
  array of the file is the array of the file without that line. A day line processed into
  a record puts that record before the records of the lines after it, and the records of
  a file in two parts are those of the first part followed by those of the second, under
  the period the first part ends with.
\<close>

theorem parse_returns_processed_records:
  "parse_text_to_json (Inr text) =
     Inr (JArr (processed_records [] (readlines text)), logging (parse_lines (readlines text)))
   \<and> (CHR 0x0A \<notin> set a \<longrightarrow>
        readlines (a @ CHR 0x0A # rest) = (a @ [CHR 0x0A]) # readlines rest)
   \<and> (a \<noteq> [] \<and> CHR 0x0A \<notin> set a \<longrightarrow> readlines a = [a])
   \<and> ((pre = [] \<or> last pre = CHR 0x0A) \<and> CHR 0x0A \<notin> set body
       \<and> py_strip (body @ [CHR 0x0A]) \<noteq> []
       \<and> py_lower (tokens (py_strip (body @ [CHR 0x0A])) ! 0) = ''day''
       \<and> (process_day_line (current_period (parse_lines (readlines pre)))
              (tokens (py_strip (body @ [CHR 0x0A]))) = Inl e
           \<or> process_day_line (current_period (parse_lines (readlines pre)))
              (tokens (py_strip (body @ [CHR 0x0A]))) = Inr None) \<longrightarrow>
      processed_records [] (readlines (pre @ body @ CHR 0x0A # post)) =
        processed_records [] (readlines (pre @ post)))
   \<and> (py_strip raw \<noteq> [] \<and> py_lower (tokens (py_strip raw) ! 0) = ''day''
       \<and> process_day_line p (tokens (py_strip raw)) = Inr (Some rec) \<longrightarrow>
      processed_records p (raw # ys) = rec # processed_records p ys)
   \<and> processed_records p (xs @ ys) =
       processed_records p xs @
       processed_records
         (current_period (foldl process_line \<lparr>result = [], current_period = p, logging = []\<rparr> xs))
         ys"
proof -
  have kept: "py_strip raw \<noteq> [] \<and> py_lower (tokens (py_strip raw) ! 0) = ''day''
       \<and> process_day_line p (tokens (py_strip raw)) = Inr (Some rec) \<longrightarrow>
      processed_records p (raw # ys) = rec # processed_records p ys"
    by simp
  have returns: "parse_text_to_json (Inr text) =
     Inr (JArr (processed_records [] (readlines text)), logging (parse_lines (readlines text)))"
    by (simp add: parse_text_to_json_eq parse_lines_records)
  have line: "CHR 0x0A \<notin> set a \<longrightarrow>
        readlines (a @ CHR 0x0A # rest) = (a @ [CHR 0x0A]) # readlines rest"
    by (rule impI) (rule readlines_line)
  have lastline: "a \<noteq> [] \<and> CHR 0x0A \<notin> set a \<longrightarrow> readlines a = [a]"
    using readlines_last by blast
  have dropped: "processed_records [] (readlines (pre @ body @ CHR 0x0A # post)) =
        processed_records [] (readlines (pre @ post))"
    if h: "(pre = [] \<or> last pre = CHR 0x0A) \<and> CHR 0x0A \<notin> set body
       \<and> py_strip (body @ [CHR 0x0A]) \<noteq> []
       \<and> py_lower (tokens (py_strip (body @ [CHR 0x0A])) ! 0) = ''day''
       \<and> (process_day_line (current_period (parse_lines (readlines pre)))
              (tokens (py_strip (body @ [CHR 0x0A]))) = Inl e
           \<or> process_day_line (current_period (parse_lines (readlines pre)))
              (tokens (py_strip (body @ [CHR 0x0A]))) = Inr None)"
  proof -
    let ?raw = "body @ [CHR 0x0A]"
    from h have 1: "readlines (pre @ body @ CHR 0x0A # post) =
        readlines pre @ ?raw # readlines post"
      by (simp add: readlines_append readlines_line)
    from h have 2: "readlines (pre @ post) = readlines pre @ readlines post"
      by (simp add: readlines_append)
    from h have ne: "tokens (py_strip ?raw) \<noteq> []" by (intro tokens_nonblank) simp
    from h have day: "py_lower (tokens (py_strip ?raw) ! 0) = ''day''" by simp
    from h have no: "\<forall>rec. process_day_line (current_period (parse_lines (readlines pre)))
        (tokens (py_strip ?raw)) \<noteq> Inr (Some rec)" by auto
    have "result (parse_lines (readlines pre @ ?raw # readlines post)) =
            result (parse_lines (readlines pre @ readlines post))"
      by (rule parse_lines_drop_line [OF ne day no])
    then show ?thesis by (simp only: 1 2 parse_lines_records)
  qed
  have ordered: "processed_records p (xs @ ys) =
       processed_records p xs @
       processed_records
         (current_period (foldl process_line \<lparr>result = [], current_period = p, logging = []\<rparr> xs))
         ys"
  proof -
    let ?st = "\<lparr>result = [], current_period = p, logging = []\<rparr>"
    have "processed_records p (xs @ ys) = result (foldl process_line ?st (xs @ ys))"
      using foldl_process_line_records [of ?st "xs @ ys"] by simp
    also have "\<dots> = result (foldl process_line ?st xs) @
            processed_records (current_period (foldl process_line ?st xs)) ys"
      using foldl_process_line_records [of "foldl process_line ?st xs" ys] by simp
    also have "result (foldl process_line ?st xs) = processed_records p xs"
      using foldl_process_line_records [of ?st xs] by simp
    finally show ?thesis .
  qed
  from dropped have dropped': "(pre = [] \<or> last pre = CHR 0x0A) \<and> CHR 0x0A \<notin> set body
       \<and> py_strip (body @ [CHR 0x0A]) \<noteq> []
       \<and> py_lower (tokens (py_strip (body @ [CHR 0x0A])) ! 0) = ''day''
       \<and> (process_day_line (current_period (parse_lines (readlines pre)))
              (tokens (py_strip (body @ [CHR 0x0A]))) = Inl e
           \<or> process_day_line (current_period (parse_lines (readlines pre)))
              (tokens (py_strip (body @ [CHR 0x0A]))) = Inr None) \<longrightarrow>
      processed_records [] (readlines (pre @ body @ CHR 0x0A # post)) =
        processed_records [] (readlines (pre @ post))"
    by (rule impI)
  show ?thesis
    by (rule conjI [OF returns conjI [OF line conjI [OF lastline conjI [OF dropped' conjI [OF kept ordered]]]]])
qed

text \<open>
  The theorem at the file of the lines "Day 1 Genesis 1 Psalm 1", "Day x Genesis 1" and
  "Day 2 Genesis 2 Psalm 2": the second line raises ValueError and is dropped, and the
  array holds the records of the first and the third line, in this order.
\<close>

theorem parse_returns_processed_records_witness:
  "last (''Day 1 Genesis 1 Psalm 1'' @ [CHR 0x0A]) = CHR 0x0A
   \<and> CHR 0x0A \<notin> set ''Day x Genesis 1''
   \<and> py_strip (''Day x Genesis 1'' @ [CHR 0x0A]) = ''Day x Genesis 1''
   \<and> py_lower (tokens (py_strip (''Day x Genesis 1'' @ [CHR 0x0A])) ! 0) = ''day''
   \<and> process_day_line
        (current_period (parse_lines (readlines (''Day 1 Genesis 1 Psalm 1'' @ [CHR 0x0A]))))
        (tokens (py_strip (''Day x Genesis 1'' @ [CHR 0x0A]))) = Inl ValueError
   \<and> processed_records []
        (readlines ((''Day 1 Genesis 1 Psalm 1'' @ [CHR 0x0A]) @ ''Day x Genesis 1'' @
                    CHR 0x0A # ''Day 2 Genesis 2 Psalm 2'' @ [CHR 0x0A])) =
       processed_records []
        (readlines ((''Day 1 Genesis 1 Psalm 1'' @ [CHR 0x0A]) @
                    ''Day 2 Genesis 2 Psalm 2'' @ [CHR 0x0A]))
   \<and> parse_text_to_json
        (Inr ((''Day 1 Genesis 1 Psalm 1'' @ [CHR 0x0A]) @ ''Day x Genesis 1'' @
              CHR 0x0A # ''Day 2 Genesis 2 Psalm 2'' @ [CHR 0x0A])) =
       Inr (JArr
        [JObj [(''day'', JInt 1), (''period'', JStr []),
          (''first_reading'',
             JObj [(''book'', JStr ''Genesis''), (''chapters'', JStr ''1''),
                   (''verses'', JStr ''all'')]),
          (''second_reading'', JStr ''none''),
          (''poem'',
             JObj [(''book'', JStr ''Psalm''), (''chapters'', JStr ''1''),
                   (''verses'', JStr ''all'')])],
         JObj [(''day'', JInt 2), (''period'', JStr []),
          (''first_reading'',
             JObj [(''book'', JStr ''Genesis''), (''chapters'', JStr ''2''),
                   (''verses'', JStr ''all'')]),
          (''second_reading'', JStr ''none''),
          (''poem'',
             JObj [(''book'', JStr ''Psalm''), (''chapters'', JStr ''2''),
                   (''verses'', JStr ''all'')])]],
        [Log INFO ''Read 3 lines from the file.'',
         LogExc ERROR (''Error processing line '' @ [CHR 0x27] @ ''Day x Genesis 1''
                        @ [CHR 0x27] @ '': '') ValueError])"
proof -
  let ?pre = "''Day 1 Genesis 1 Psalm 1'' @ [CHR 0x0A]"
  let ?body = "''Day x Genesis 1''"
  let ?post = "''Day 2 Genesis 2 Psalm 2'' @ [CHR 0x0A]"
  have l: "last ?pre = CHR 0x0A" by simp
  have nl: "CHR 0x0A \<notin> set ?body" by simp
  have strip: "py_strip (?body @ [CHR 0x0A]) = ''Day x Genesis 1''" by code_simp
  have day: "py_lower (tokens (py_strip (?body @ [CHR 0x0A])) ! 0) = ''day''" by code_simp
  have err: "process_day_line (current_period (parse_lines (readlines ?pre)))
        (tokens (py_strip (?body @ [CHR 0x0A]))) = Inl ValueError" by code_simp
  have ne: "py_strip (?body @ [CHR 0x0A]) \<noteq> []" unfolding strip by simp
  from parse_returns_processed_records [where pre = ?pre and body = ?body and e = ValueError
      and post = ?post] l nl ne day err
  have eq: "processed_records [] (readlines (?pre @ ?body @ CHR 0x0A # ?post)) =
       processed_records [] (readlines (?pre @ ?post))"
    by blast
  have full: "parse_text_to_json (Inr (?pre @ ?body @ CHR 0x0A # ?post)) =
       Inr (JArr
        [JObj [(''day'', JInt 1), (''period'', JStr []),
          (''first_reading'',
             JObj [(''book'', JStr ''Genesis''), (''chapters'', JStr ''1''),
                   (''verses'', JStr ''all'')]),
          (''second_reading'', JStr ''none''),
          (''poem'',
             JObj [(''book'', JStr ''Psalm''), (''chapters'', JStr ''1''),
                   (''verses'', JStr ''all'')])],
         JObj [(''day'', JInt 2), (''period'', JStr []),
          (''first_reading'',
             JObj [(''book'', JStr ''Genesis''), (''chapters'', JStr ''2''),
                   (''verses'', JStr ''all'')]),
          (''second_reading'', JStr ''none''),
          (''poem'',
             JObj [(''book'', JStr ''Psalm''), (''chapters'', JStr ''2''),
                   (''verses'', JStr ''all'')])]],
        [Log INFO ''Read 3 lines from the file.'',
         LogExc ERROR (''Error processing line '' @ [CHR 0x27] @ ''Day x Genesis 1''
                        @ [CHR 0x27] @ '': '') ValueError])"
    by code_simp
  show ?thesis by (intro conjI l nl strip day err eq full)
qed

text \<open>
  Claim C5. A line that is not blank and whose first token, in lowercase, is not "day"
  is a header: it gives no record and sets the period to the whole stripped line. Every
  record that the lines after it give, up to the next header, carries that period. In
  particular the file of the lines "Law and History" and "Day 1 Genesis 1:3 Psalm 1"
  gives one record, with period "Law and History", day 1, first reading Genesis 1 verses
  3, second reading "none" and poem Psalm 1 all.
\<close>

theorem header_sets_period:
  "(py_strip h \<noteq> [] \<and> py_lower (tokens (py_strip h) ! 0) \<noteq> ''day'' \<longrightarrow>
      result (process_line st h) = result st
      \<and> current_period (process_line st h) = py_strip h)
   \<and> (py_strip h \<noteq> [] \<and> py_lower (tokens (py_strip h) ! 0) \<noteq> ''day''
       \<and> (\<forall>l\<in>set ls. py_strip l = [] \<or> py_lower (tokens (py_strip l) ! 0) = ''day'') \<longrightarrow>
      (\<exists>new. result (parse_lines (pre @ h # ls)) = result (parse_lines pre) @ new
         \<and> (\<forall>rec\<in>set new. subscript rec ''period'' = Inr (JStr (py_strip h)))))
   \<and> parse_text_to_json
        (Inr (''Law and History'' @ [CHR 0x0A] @ ''Day 1 Genesis 1:3 Psalm 1'' @ [CHR 0x0A])) =
      Inr (JArr
        [JObj [(''day'', JInt 1), (''period'', JStr ''Law and History''),
          (''first_reading'',
             JObj [(''book'', JStr ''Genesis''), (''chapters'', JStr ''1''),
                   (''verses'', JStr ''3'')]),
          (''second_reading'', JStr ''none''),
          (''poem'',
             JObj [(''book'', JStr ''Psalm''), (''chapters'', JStr ''1''),
                   (''verses'', JStr ''all'')])]],
        [Log INFO ''Read 2 lines from the file.'',
         Log INFO ''New period detected: Law and History''])"
proof -
  have header: "result (process_line s h) = result s
      \<and> current_period (process_line s h) = py_strip h"
    if "py_strip h \<noteq> [] \<and> py_lower (tokens (py_strip h) ! 0) \<noteq> ''day''" for s
    using that by (simp add: process_line_header tokens_nonblank)
  have inherit: "\<exists>new. result (parse_lines (pre @ h # ls)) = result (parse_lines pre) @ new
         \<and> (\<forall>rec\<in>set new. subscript rec ''period'' = Inr (JStr (py_strip h)))"
    if a: "py_strip h \<noteq> [] \<and> py_lower (tokens (py_strip h) ! 0) \<noteq> ''day''
       \<and> (\<forall>l\<in>set ls. py_strip l = [] \<or> py_lower (tokens (py_strip l) ! 0) = ''day'')"
  proof -
    let ?st = "process_line (parse_lines pre) h"
    from a header [of "parse_lines pre"]
    have r: "result ?st = result (parse_lines pre)" and p: "current_period ?st = py_strip h"
      by simp_all
    from a have "\<forall>l\<in>set ls. tokens (py_strip l) = [] \<or> py_lower (tokens (py_strip l) ! 0) = ''day''"
      by auto
    from foldl_process_line_no_header [OF this, of ?st] obtain new where
      "result (foldl process_line ?st ls) = result ?st @ new"
      "\<forall>rec\<in>set new. subscript rec ''period'' = Inr (JStr (current_period ?st))"
      by blast
    moreover have "result (parse_lines (pre @ h # ls)) = result (foldl process_line ?st ls)"
      using parse_lines_append [of pre "h # ls"] by simp
    ultimately show ?thesis using r p by auto
  qed
  have example: "parse_text_to_json
        (Inr (''Law and History'' @ [CHR 0x0A] @ ''Day 1 Genesis 1:3 Psalm 1'' @ [CHR 0x0A])) =
      Inr (JArr
        [JObj [(''day'', JInt 1), (''period'', JStr ''Law and History''),
          (''first_reading'',
             JObj [(''book'', JStr ''Genesis''), (''chapters'', JStr ''1''),
                   (''verses'', JStr ''3'')]),
          (''second_reading'', JStr ''none''),
          (''poem'',
             JObj [(''book'', JStr ''Psalm''), (''chapters'', JStr ''1''),
                   (''verses'', JStr ''all'')])]],
        [Log INFO ''Read 2 lines from the file.'',
         Log INFO ''New period detected: Law and History''])"
    by code_simp
  from header have 1: "py_strip h \<noteq> [] \<and> py_lower (tokens (py_strip h) ! 0) \<noteq> ''day'' \<longrightarrow>
      result (process_line st h) = result st
      \<and> current_period (process_line st h) = py_strip h" by (rule impI)
  from inherit have 2: "py_strip h \<noteq> [] \<and> py_lower (tokens (py_strip h) ! 0) \<noteq> ''day''
       \<and> (\<forall>l\<in>set ls. py_strip l = [] \<or> py_lower (tokens (py_strip l) ! 0) = ''day'') \<longrightarrow>
      (\<exists>new. result (parse_lines (pre @ h # ls)) = result (parse_lines pre) @ new
         \<and> (\<forall>rec\<in>set new. subscript rec ''period'' = Inr (JStr (py_strip h))))"
    by (rule impI)
  show ?thesis by (rule conjI [OF 1 conjI [OF 2 example]])
qed

text \<open>
  The theorem at the header "  Wisdom   Books ", after the line "Day 1 Genesis 1" and
  before a blank line and the line "Day 9 Job 1 Psalm 9".
\<close>

theorem header_sets_period_witness:
  "py_strip ''  Wisdom   Books '' = ''Wisdom   Books''
   \<and> py_lower (tokens (py_strip ''  Wisdom   Books '') ! 0) = ''wisdom''
   \<and> current_period (process_line \<lparr>result = [], current_period = ''Law'', logging = []\<rparr>
        ''  Wisdom   Books '') = ''Wisdom   Books''
   \<and> result (process_line \<lparr>result = [], current_period = ''Law'', logging = []\<rparr>
        ''  Wisdom   Books '') = []
   \<and> py_strip [] = []
   \<and> py_lower (tokens (py_strip ''Day 9 Job 1 Psalm 9'') ! 0) = ''day''
   \<and> result (parse_lines [''Day 1 Genesis 1'']) =
       [JObj [(''day'', JInt 1), (''period'', JStr []),
          (''first_reading'',
             JObj [(''book'', JStr ''Genesis''), (''chapters'', JStr ''1''),
                   (''verses'', JStr ''all'')]),
          (''second_reading'', JStr ''none''), (''poem'', JNull)]]
   \<and> result (parse_lines ([''Day 1 Genesis 1''] @ ''  Wisdom   Books '' #
                 [[], ''Day 9 Job 1 Psalm 9''])) =
       result (parse_lines [''Day 1 Genesis 1'']) @
       [JObj [(''day'', JInt 9), (''period'', JStr ''Wisdom   Books''),
          (''first_reading'',
             JObj [(''book'', JStr ''Job''), (''chapters'', JStr ''1''),
                   (''verses'', JStr ''all'')]),
          (''second_reading'', JStr ''none''),
          (''poem'',
             JObj [(''book'', JStr ''Psalm''), (''chapters'', JStr ''9''),
                   (''verses'', JStr ''all'')])]]
   \<and> (\<exists>new. result (parse_lines ([''Day 1 Genesis 1''] @ ''  Wisdom   Books '' #
                 [[], ''Day 9 Job 1 Psalm 9''])) =
              result (parse_lines [''Day 1 Genesis 1'']) @ new
         \<and> list_all (\<lambda>rec. subscript rec ''period'' = Inr (JStr ''Wisdom   Books'')) new)"
proof -
  let ?h = "''  Wisdom   Books ''"
  let ?st = "\<lparr>result = [], current_period = ''Law'', logging = []\<rparr>"
  have strip: "py_strip ?h = ''Wisdom   Books''" by code_simp
  have low: "py_lower (tokens (py_strip ?h) ! 0) = ''wisdom''" by code_simp
  have blank: "py_strip [] = []" by code_simp
  have day: "py_lower (tokens (py_strip ''Day 9 Job 1 Psalm 9'') ! 0) = ''day''" by code_simp
  have r1: "result (parse_lines [''Day 1 Genesis 1'']) =
       [JObj [(''day'', JInt 1), (''period'', JStr []),
          (''first_reading'',
             JObj [(''book'', JStr ''Genesis''), (''chapters'', JStr ''1''),
                   (''verses'', JStr ''all'')]),
          (''second_reading'', JStr ''none''), (''poem'', JNull)]]" by code_simp
  have r2: "result (parse_lines ([''Day 1 Genesis 1''] @ ''  Wisdom   Books '' #
                 [[], ''Day 9 Job 1 Psalm 9''])) =
       result (parse_lines [''Day 1 Genesis 1'']) @
       [JObj [(''day'', JInt 9), (''period'', JStr ''Wisdom   Books''),
          (''first_reading'',
             JObj [(''book'', JStr ''Job''), (''chapters'', JStr ''1''),
                   (''verses'', JStr ''all'')]),
          (''second_reading'', JStr ''none''),
          (''poem'',
             JObj [(''book'', JStr ''Psalm''), (''chapters'', JStr ''9''),
                   (''verses'', JStr ''all'')])]]" by code_simp
  have hd: "py_strip ?h \<noteq> [] \<and> py_lower (tokens (py_strip ?h) ! 0) \<noteq> ''day''"
    unfolding low unfolding strip by simp
  note inst = header_sets_period [of ?h ?st "[[], ''Day 9 Job 1 Psalm 9'']" "[''Day 1 Genesis 1'']"]
  from inst hd have c: "current_period (process_line ?st ?h) = ''Wisdom   Books''"
    and r: "result (process_line ?st ?h) = []"
    unfolding strip by simp_all
  have "\<forall>l\<in>set [[], ''Day 9 Job 1 Psalm 9'']. py_strip l = []
           \<or> py_lower (tokens (py_strip l) ! 0) = ''day''"
    using blank day by simp
  with inst hd have "\<exists>new. result (parse_lines ([''Day 1 Genesis 1''] @ ?h #
                 [[], ''Day 9 Job 1 Psalm 9''])) =
              result (parse_lines [''Day 1 Genesis 1'']) @ new
         \<and> (\<forall>rec\<in>set new. subscript rec ''period'' = Inr (JStr (py_strip ?h)))"
    by blast
  then have e: "\<exists>new. result (parse_lines ([''Day 1 Genesis 1''] @ ?h #
                 [[], ''Day 9 Job 1 Psalm 9''])) =
              result (parse_lines [''Day 1 Genesis 1'']) @ new
         \<and> list_all (\<lambda>rec. subscript rec ''period'' = Inr (JStr ''Wisdom   Books'')) new"
    unfolding strip list_all_iff .
  show ?thesis by (intro conjI strip low c r blank day r1 r2 e)
qed

section \<open>The daily announcer\<close>

text \<open>
  Claim C7. Let the file hold a sequence in which some record has a day field equal to the
  day of the year, and let \<open>entry\<close> be the first such record (every record before it
  has a day field that differs). Then the firing is the firing on the file that holds
  \<open>entry\<close> alone: the records after it, also those with the same day, change nothing.
  When \<open>entry\<close> formats to a message, the channel is found and the send returns, that
  message is the one delivered; and in every case nothing is delivered but the message
  of \<open>entry\<close>.
\<close>

theorem first_matching_record_used:
  assumes disk: "disk e = Inr (JArr (pre @ entry # post))"
    and pre: "\<forall>x\<in>set pre. \<exists>d. subscript x ''day'' = Inr d \<and> \<not> py_eq_int d (tm_yday (today e))"
    and day: "subscript entry ''day'' = Inr d"
    and match: "py_eq_int d (tm_yday (today e))"
  shows "send_bible_message e st = send_bible_message (e\<lparr>disk := Inr (JArr [entry])\<rparr>) st
       \<and> (format_daily_message entry (today e) = Inr message \<and> get_channel e = Some send
            \<and> send message = None \<longrightarrow>
          sent (snd (send_bible_message e st)) = sent st @ [message])
       \<and> (sent (snd (send_bible_message e st)) = sent st
          \<or> (\<exists>m. format_daily_message entry (today e) = Inr m
                \<and> sent (snd (send_bible_message e st)) = sent st @ [m]))"
proof -
  let ?n = "tm_yday (today e)"
  let ?st = "log_to (Log INFO (''Successfully loaded Bible data from '' @ json_path e)) st"
  let ?e1 = "e\<lparr>disk := Inr (JArr [entry])\<rparr>"
  have "send_body e st = scan_entries e ?n (pre @ entry # post) ?st"
    by (rule send_body_loaded [OF disk])
  also have "\<dots> = scan_entries e ?n (entry # post) ?st"
    by (rule scan_entries_skip [OF pre])
  also have "\<dots> = scan_entries e ?n [entry] ?st"
    by (rule scan_entries_match [OF day match])
  finally have body: "send_body e st = scan_entries e ?n [entry] ?st" .
  have scan1: "scan_entries ?e1 ?n [entry] ?st = scan_entries e ?n [entry] ?st"
    by (simp add: day match split: sum.splits option.splits)
  have "send_body ?e1 st = scan_entries ?e1 ?n [entry] ?st"
    using send_body_loaded [of ?e1 "[entry]" st] by (simp del: scan_entries.simps)
  with scan1 have body1: "send_body ?e1 st = scan_entries e ?n [entry] ?st"
    by (simp only:)
  have same: "send_bible_message e st = send_bible_message ?e1 st"
    by (simp only: send_bible_message_def body body1)
  have delivered: "sent (snd (send_bible_message e st)) = sent st @ [message]"
    if "format_daily_message entry (today e) = Inr message \<and> get_channel e = Some send
            \<and> send message = None"
    using that by (simp add: send_bible_message_def body day match log_to_def)
  have only: "sent (snd (send_bible_message e st)) = sent st
          \<or> (\<exists>m. format_daily_message entry (today e) = Inr m
                \<and> sent (snd (send_bible_message e st)) = sent st @ [m])"
    by (auto simp: send_bible_message_def body day match log_to_def
        split: sum.splits option.splits)
  from delivered have delivered': "format_daily_message entry (today e) = Inr message
       \<and> get_channel e = Some send \<and> send message = None \<longrightarrow>
          sent (snd (send_bible_message e st)) = sent st @ [message]"
    by (rule impI)
  show ?thesis by (rule conjI [OF same conjI [OF delivered' only]])
qed

text \<open>
  The theorem on 5 January 2024 (day 5), at a file with a record of day 4 followed by
  two records of day 5: the message of the first of the two is the one delivered.
\<close>

theorem first_matching_record_used_witness:
  "tm_yday \<lparr>year = 2024, month = 1, day = 5\<rparr> = 5
   \<and> subscript (JObj [(''day'', JInt 4)]) ''day'' = Inr (JInt 4)
   \<and> \<not> py_eq_int (JInt 4) 5
   \<and> py_eq_int (JInt 5) 5
   \<and> format_daily_message
        (JObj [(''day'', JInt 5), (''period'', JStr ''Law''),
           (''first_reading'', JObj [(''book'', JStr ''Exodus''), (''chapters'', JStr ''2''),
                                     (''verses'', JStr ''all'')]),
           (''second_reading'', JStr ''none''),
           (''poem'', JObj [(''book'', JStr ''Psalm''), (''chapters'', JStr ''3''),
                            (''verses'', JStr ''all'')])])
        \<lparr>year = 2024, month = 1, day = 5\<rparr> =
       Inr (join_str [CHR 0x0A]
         [''# Bible in a Year Day 5 (January 05) Law'', [], ''## Readings'', [],
          ''### First Reading'', ''Exodus Chapter(s) 2'', [], ''### Poem'', ''Psalm 3''])
   \<and> sent (snd (send_bible_message
        \<lparr>json_path = ''plan.json'', channel_id = 7,
           disk = Inr (JArr
             ([JObj [(''day'', JInt 4)]] @
              JObj [(''day'', JInt 5), (''period'', JStr ''Law''),
                (''first_reading'', JObj [(''book'', JStr ''Exodus''), (''chapters'', JStr ''2''),
                                          (''verses'', JStr ''all'')]),
                (''second_reading'', JStr ''none''),
                (''poem'', JObj [(''book'', JStr ''Psalm''), (''chapters'', JStr ''3''),
                                 (''verses'', JStr ''all'')])] #
              [JObj [(''day'', JInt 5), (''period'', JStr ''Other''),
                (''first_reading'', JObj [(''book'', JStr ''Job''), (''chapters'', JStr ''1''),
                                          (''verses'', JStr ''all'')]),
                (''second_reading'', JStr ''none''),
                (''poem'', JObj [(''book'', JStr ''Psalm''), (''chapters'', JStr ''9''),
                                 (''verses'', JStr ''all'')])]])),
           today = \<lparr>year = 2024, month = 1, day = 5\<rparr>,
           get_channel = Some (\<lambda>message. None)\<rparr>
        \<lparr>sent = [], logger = []\<rparr>)) =
       [join_str [CHR 0x0A]
         [''# Bible in a Year Day 5 (January 05) Law'', [], ''## Readings'', [],
          ''### First Reading'', ''Exodus Chapter(s) 2'', [], ''### Poem'', ''Psalm 3'']]"
proof -
  let ?D = "\<lparr>year = 2024, month = 1, day = 5\<rparr>"
  let ?A = "JObj [(''day'', JInt 4)]"
  let ?B = "JObj [(''day'', JInt 5), (''period'', JStr ''Law''),
           (''first_reading'', JObj [(''book'', JStr ''Exodus''), (''chapters'', JStr ''2''),
                                     (''verses'', JStr ''all'')]),
           (''second_reading'', JStr ''none''),
           (''poem'', JObj [(''book'', JStr ''Psalm''), (''chapters'', JStr ''3''),
                            (''verses'', JStr ''all'')])]"
  let ?C = "JObj [(''day'', JInt 5), (''period'', JStr ''Other''),
                (''first_reading'', JObj [(''book'', JStr ''Job''), (''chapters'', JStr ''1''),
                                          (''verses'', JStr ''all'')]),
                (''second_reading'', JStr ''none''),
                (''poem'', JObj [(''book'', JStr ''Psalm''), (''chapters'', JStr ''9''),
                                 (''verses'', JStr ''all'')])]"
  let ?M = "join_str [CHR 0x0A]
         [''# Bible in a Year Day 5 (January 05) Law'', [], ''## Readings'', [],
          ''### First Reading'', ''Exodus Chapter(s) 2'', [], ''### Poem'', ''Psalm 3'']"
  let ?E = "\<lparr>json_path = ''plan.json'', channel_id = 7,
           disk = Inr (JArr ([?A] @ ?B # [?C])), today = ?D,
           get_channel = Some (\<lambda>message. None)\<rparr>"
  have yday: "tm_yday ?D = 5" by code_simp
  have a: "subscript ?A ''day'' = Inr (JInt 4)" by code_simp
  have na: "\<not> py_eq_int (JInt 4) 5" by code_simp
  have b: "subscript ?B ''day'' = Inr (JInt 5)" by code_simp
  have mb: "py_eq_int (JInt 5) 5" by code_simp
  have f: "format_daily_message ?B ?D = Inr ?M" by code_simp
  have pre: "\<forall>x\<in>set [?A]. \<exists>d. subscript x ''day'' = Inr d \<and> \<not> py_eq_int d (tm_yday (today ?E))"
    using a na yday by simp
  have match: "py_eq_int (JInt 5) (tm_yday (today ?E))" using mb yday by simp
  have day: "subscript ?B ''day'' = Inr (JInt 5)" by (rule b)
  have disk: "disk ?E = Inr (JArr ([?A] @ ?B # [?C]))" by simp
  note inst = first_matching_record_used [OF disk pre day match,
      where message = ?M and send = "\<lambda>message. None" and st = "\<lparr>sent = [], logger = []\<rparr>"]
  have gc: "get_channel ?E = Some (\<lambda>message. None)" by simp
  from inst have "format_daily_message ?B (today ?E) = Inr ?M
      \<and> get_channel ?E = Some (\<lambda>message. None) \<and> (None :: py_error option) = None \<longrightarrow>
    sent (snd (send_bible_message ?E \<lparr>sent = [], logger = []\<rparr>)) =
      sent \<lparr>sent = [], logger = []\<rparr> @ [?M]"
    by (rule conjunct2 [THEN conjunct1])
  moreover have "format_daily_message ?B (today ?E) = Inr ?M"
    using f by (simp only: env.select_convs)
  ultimately have "sent (snd (send_bible_message ?E \<lparr>sent = [], logger = []\<rparr>)) =
      sent \<lparr>sent = [], logger = []\<rparr> @ [?M]"
    using gc by blast
  then have s: "sent (snd (send_bible_message ?E \<lparr>sent = [], logger = []\<rparr>)) = [?M]"
    by (simp only: bot_state.select_convs append_Nil)
  show ?thesis by (intro conjI yday a na mb f s)
qed

text \<open>
  Claim C8. When the file holds a sequence of records none of whose day fields equals the
  day of the year, the firing delivers nothing and logs, after the record of the load, the
  warning that no reading was found. For every environment and state no exception
  escapes \<open>send_bible_message\<close>; and whenever the body of its \<open>try\<close> raises (while
  loading, in the loop, while formatting or sending), nothing has been delivered and the
  firing ends with the error record of that exception.
\<close>

theorem no_match_no_message:
  "(disk e = Inr (JArr es)
     \<and> (\<forall>x\<in>set es. \<exists>d. subscript x ''day'' = Inr d \<and> \<not> py_eq_int d (tm_yday (today e))) \<longrightarrow>
      send_bible_message e st =
        (None, st\<lparr>logger := logger st @
           [Log INFO (''Successfully loaded Bible data from '' @ json_path e),
            Log WARNING (''No reading found for day '' @ str_int (tm_yday (today e)))]\<rparr>))
   \<and> fst (send_bible_message e st) = None
   \<and> (send_body e st = (Some err, st1) \<longrightarrow>
        sent st1 = sent st
        \<and> send_bible_message e st =
            (None, st1\<lparr>logger := logger st1 @
               [LogExc ERROR ''Error sending Bible message: '' err]\<rparr>))"
proof -
  have nomatch: "send_bible_message e st =
        (None, st\<lparr>logger := logger st @
           [Log INFO (''Successfully loaded Bible data from '' @ json_path e),
            Log WARNING (''No reading found for day '' @ str_int (tm_yday (today e)))]\<rparr>)"
    if a: "disk e = Inr (JArr es)
     \<and> (\<forall>x\<in>set es. \<exists>d. subscript x ''day'' = Inr d \<and> \<not> py_eq_int d (tm_yday (today e)))"
  proof -
    let ?st = "log_to (Log INFO (''Successfully loaded Bible data from '' @ json_path e)) st"
    from a have "send_body e st = scan_entries e (tm_yday (today e)) es ?st"
      by (intro send_body_loaded) simp
    also from a have "\<dots> =
        (None, log_to (Log WARNING (''No reading found for day '' @ str_int (tm_yday (today e)))) ?st)"
      by (intro scan_entries_no_match) simp
    finally show ?thesis by (simp add: send_bible_message_def log_to_def)
  qed
  have caught: "sent st1 = sent st
        \<and> send_bible_message e st =
            (None, st1\<lparr>logger := logger st1 @
               [LogExc ERROR ''Error sending Bible message: '' err]\<rparr>)"
    if b: "send_body e st = (Some err, st1)"
    using send_body_raise [OF b] b by (simp add: send_bible_message_def log_to_def)
  from nomatch have 1: "disk e = Inr (JArr es)
     \<and> (\<forall>x\<in>set es. \<exists>d. subscript x ''day'' = Inr d \<and> \<not> py_eq_int d (tm_yday (today e))) \<longrightarrow>
      send_bible_message e st =
        (None, st\<lparr>logger := logger st @
           [Log INFO (''Successfully loaded Bible data from '' @ json_path e),
            Log WARNING (''No reading found for day '' @ str_int (tm_yday (today e)))]\<rparr>)"
    by (rule impI)
  from caught have 3: "send_body e st = (Some err, st1) \<longrightarrow>
        sent st1 = sent st
        \<and> send_bible_message e st =
            (None, st1\<lparr>logger := logger st1 @
               [LogExc ERROR ''Error sending Bible message: '' err]\<rparr>)"
    by (rule impI)
  show ?thesis by (rule conjI [OF 1 conjI [OF send_bible_message_fst 3]])
qed

text \<open>
  The theorem on 5 January 2024 at a file whose only record has day 4, and at a missing
  file.
\<close>

theorem no_match_no_message_witness:
  "subscript (JObj [(''day'', JInt 4)]) ''day'' = Inr (JInt 4)
   \<and> \<not> py_eq_int (JInt 4) (tm_yday \<lparr>year = 2024, month = 1, day = 5\<rparr>)
   \<and> send_bible_message
        \<lparr>json_path = ''plan.json'', channel_id = 7,
           disk = Inr (JArr [JObj [(''day'', JInt 4)]]),
           today = \<lparr>year = 2024, month = 1, day = 5\<rparr>,
           get_channel = Some (\<lambda>message. None)\<rparr>
        \<lparr>sent = [], logger = []\<rparr> =
       (None, \<lparr>sent = [],
               logger = [Log INFO ''Successfully loaded Bible data from plan.json'',
                         Log WARNING ''No reading found for day 5'']\<rparr>)
   \<and> send_body
        \<lparr>json_path = ''plan.json'', channel_id = 7, disk = Inl FileNotFoundError,
           today = \<lparr>year = 2024, month = 1, day = 5\<rparr>,
           get_channel = Some (\<lambda>message. None)\<rparr>
        \<lparr>sent = [], logger = []\<rparr> =
       (Some FileNotFoundError,
        \<lparr>sent = [], logger = [Log ERROR ''Bible readings file not found at plan.json'']\<rparr>)
   \<and> send_bible_message
        \<lparr>json_path = ''plan.json'', channel_id = 7, disk = Inl FileNotFoundError,
           today = \<lparr>year = 2024, month = 1, day = 5\<rparr>,
           get_channel = Some (\<lambda>message. None)\<rparr>
        \<lparr>sent = [], logger = []\<rparr> =
       (None,
        \<lparr>sent = [],
           logger = [Log ERROR ''Bible readings file not found at plan.json'',
                     LogExc ERROR ''Error sending Bible message: '' FileNotFoundError]\<rparr>)"
proof -
  let ?D = "\<lparr>year = 2024, month = 1, day = 5\<rparr>"
  let ?A = "JObj [(''day'', JInt 4)]"
  let ?E = "\<lparr>json_path = ''plan.json'', channel_id = 7, disk = Inr (JArr [?A]),
           today = ?D, get_channel = Some (\<lambda>message. None)\<rparr>"
  let ?F = "\<lparr>json_path = ''plan.json'', channel_id = 7, disk = Inl FileNotFoundError,
           today = ?D, get_channel = Some (\<lambda>message. None)\<rparr>"
  let ?S = "\<lparr>sent = [], logger = []\<rparr>"
  let ?S1 = "\<lparr>sent = [], logger = [Log ERROR ''Bible readings file not found at plan.json'']\<rparr>"
  have a: "subscript ?A ''day'' = Inr (JInt 4)" by code_simp
  have na: "\<not> py_eq_int (JInt 4) (tm_yday ?D)" by code_simp
  have y: "str_int (tm_yday ?D) = ''5''" by code_simp
  have body: "send_body ?F ?S = (Some FileNotFoundError, ?S1)" by code_simp
  have hyp: "disk ?E = Inr (JArr [?A])
     \<and> (\<forall>x\<in>set [?A]. \<exists>d. subscript x ''day'' = Inr d \<and> \<not> py_eq_int d (tm_yday (today ?E)))"
    using a na by simp
  from no_match_no_message [of ?E "[?A]" ?S] hyp
  have "send_bible_message ?E ?S =
        (None, ?S\<lparr>logger := logger ?S @
           [Log INFO (''Successfully loaded Bible data from '' @ json_path ?E),
            Log WARNING (''No reading found for day '' @ str_int (tm_yday (today ?E)))]\<rparr>)"
    by blast
  then have w: "send_bible_message ?E ?S =
       (None, \<lparr>sent = [],
               logger = [Log INFO ''Successfully loaded Bible data from plan.json'',
                         Log WARNING ''No reading found for day 5'']\<rparr>)"
    using y by simp
  from no_match_no_message [of ?F _ ?S FileNotFoundError ?S1] body
  have "send_bible_message ?F ?S =
            (None, ?S1\<lparr>logger := logger ?S1 @
               [LogExc ERROR ''Error sending Bible message: '' FileNotFoundError]\<rparr>)"
    by blast
  then have c: "send_bible_message ?F ?S =
       (None,
        \<lparr>sent = [],
           logger = [Log ERROR ''Bible readings file not found at plan.json'',
                     LogExc ERROR ''Error sending Bible message: '' FileNotFoundError]\<rparr>)"
    by simp
  show ?thesis by (intro conjI a na w body c)
qed

text \<open>
  Claim C10. For every entry whose poem field is null, \<open>format_daily_message\<close> raises.
  The parser gives such an entry for every day line of exactly four tokens that it
  turns into a record, and on that record the formatter raises TypeError, at the read of
  the book of the poem. So when the first record of the day has a null poem, the firing
  delivers nothing: the state changes only by the record of the load and the error
  record of the caught exception.
\<close>

theorem null_poem_no_message:
  "(subscript entry ''poem'' = Inr JNull \<longrightarrow>
      (\<exists>err. format_daily_message entry date = Inl err))
   \<and> (length parts = 4 \<and> process_day_line p parts = Inr (Some rec) \<longrightarrow>
      subscript rec ''poem'' = Inr JNull \<and> format_daily_message rec date = Inl TypeError)
   \<and> (disk e = Inr (JArr (pre @ entry # post))
       \<and> (\<forall>x\<in>set pre. \<exists>d. subscript x ''day'' = Inr d \<and> \<not> py_eq_int d (tm_yday (today e)))
       \<and> subscript entry ''day'' = Inr d \<and> py_eq_int d (tm_yday (today e))
       \<and> subscript entry ''poem'' = Inr JNull \<longrightarrow>
      (\<exists>err. send_bible_message e st =
         (None, st\<lparr>logger := logger st @
            [Log INFO (''Successfully loaded Bible data from '' @ json_path e),
             LogExc ERROR ''Error sending Bible message: '' err]\<rparr>)))"
proof -
  have raises: "subscript entry ''poem'' = Inr JNull \<longrightarrow>
      (\<exists>err. format_daily_message entry date = Inl err)"
    by (rule impI) (rule format_daily_message_poem_null)
  have parsed: "length parts = 4 \<and> process_day_line p parts = Inr (Some rec) \<longrightarrow>
      subscript rec ''poem'' = Inr JNull \<and> format_daily_message rec date = Inl TypeError"
  proof
    assume a: "length parts = 4 \<and> process_day_line p parts = Inr (Some rec)"
    then have "format_daily_message rec date = Inl TypeError"
      by (intro format_daily_message_four_tokens [of parts p]) simp_all
    moreover from a day_record_four_tokens [of parts p rec]
    have "subscript rec ''poem'' = Inr JNull" by auto
    ultimately show "subscript rec ''poem'' = Inr JNull
        \<and> format_daily_message rec date = Inl TypeError" by simp
  qed
  have firing: "\<exists>err. send_bible_message e st =
         (None, st\<lparr>logger := logger st @
            [Log INFO (''Successfully loaded Bible data from '' @ json_path e),
             LogExc ERROR ''Error sending Bible message: '' err]\<rparr>)"
    if a: "disk e = Inr (JArr (pre @ entry # post))
       \<and> (\<forall>x\<in>set pre. \<exists>d. subscript x ''day'' = Inr d \<and> \<not> py_eq_int d (tm_yday (today e)))
       \<and> subscript entry ''day'' = Inr d \<and> py_eq_int d (tm_yday (today e))
       \<and> subscript entry ''poem'' = Inr JNull"
  proof -
    let ?n = "tm_yday (today e)"
    let ?st = "log_to (Log INFO (''Successfully loaded Bible data from '' @ json_path e)) st"
    from a obtain err where err: "format_daily_message entry (today e) = Inl err"
      using format_daily_message_poem_null by blast
    from a have "send_body e st = scan_entries e ?n (pre @ entry # post) ?st"
      by (intro send_body_loaded) simp
    also from a have "\<dots> = scan_entries e ?n (entry # post) ?st"
      by (intro scan_entries_skip) simp
    also from a err have "\<dots> = (Some err, ?st)" by simp
    finally have "send_bible_message e st =
         (None, st\<lparr>logger := logger st @
            [Log INFO (''Successfully loaded Bible data from '' @ json_path e),
             LogExc ERROR ''Error sending Bible message: '' err]\<rparr>)"
      by (simp add: send_bible_message_def log_to_def)
    then show ?thesis by blast
  qed
  from firing have firing': "disk e = Inr (JArr (pre @ entry # post))
       \<and> (\<forall>x\<in>set pre. \<exists>d. subscript x ''day'' = Inr d \<and> \<not> py_eq_int d (tm_yday (today e)))
       \<and> subscript entry ''day'' = Inr d \<and> py_eq_int d (tm_yday (today e))
       \<and> subscript entry ''poem'' = Inr JNull \<longrightarrow>
      (\<exists>err. send_bible_message e st =
         (None, st\<lparr>logger := logger st @
            [Log INFO (''Successfully loaded Bible data from '' @ json_path e),
             LogExc ERROR ''Error sending Bible message: '' err]\<rparr>))"
    by (rule impI)
  show ?thesis by (rule conjI [OF raises conjI [OF parsed firing']])
qed

text \<open>The theorem at the record of the line "Day 5 Genesis 1", on 5 January 2024.\<close>

theorem null_poem_no_message_witness:
  "length (tokens ''Day 5 Genesis 1'') = 4
   \<and> process_day_line ''Law'' (tokens ''Day 5 Genesis 1'') =
       Inr (Some (JObj [(''day'', JInt 5), (''period'', JStr ''Law''),
         (''first_reading'', JObj [(''book'', JStr ''Genesis''), (''chapters'', JStr ''1''),
                                   (''verses'', JStr ''all'')]),
         (''second_reading'', JStr ''none''), (''poem'', JNull)]))
   \<and> subscript (JObj [(''day'', JInt 5), (''period'', JStr ''Law''),
         (''first_reading'', JObj [(''book'', JStr ''Genesis''), (''chapters'', JStr ''1''),
                                   (''verses'', JStr ''all'')]),
         (''second_reading'', JStr ''none''), (''poem'', JNull)]) ''poem'' = Inr JNull
   \<and> format_daily_message (JObj [(''day'', JInt 5), (''period'', JStr ''Law''),
         (''first_reading'', JObj [(''book'', JStr ''Genesis''), (''chapters'', JStr ''1''),
                                   (''verses'', JStr ''all'')]),
         (''second_reading'', JStr ''none''), (''poem'', JNull)])
        \<lparr>year = 2024, month = 1, day = 5\<rparr> = Inl TypeError
   \<and> py_eq_int (JInt 5) (tm_yday \<lparr>year = 2024, month = 1, day = 5\<rparr>)
   \<and> (\<exists>err. send_bible_message
        \<lparr>json_path = ''plan.json'', channel_id = 7,
           disk = Inr (JArr ([] @
             JObj [(''day'', JInt 5), (''period'', JStr ''Law''),
               (''first_reading'', JObj [(''book'', JStr ''Genesis''), (''chapters'', JStr ''1''),
                                         (''verses'', JStr ''all'')]),
               (''second_reading'', JStr ''none''), (''poem'', JNull)] # [])),
           today = \<lparr>year = 2024, month = 1, day = 5\<rparr>,
           get_channel = Some (\<lambda>message. None)\<rparr>
        \<lparr>sent = [], logger = []\<rparr> =
       (None, \<lparr>sent = [],
               logger = [Log INFO ''Successfully loaded Bible data from plan.json'',
                         LogExc ERROR ''Error sending Bible message: '' err]\<rparr>))"
proof -
  let ?D = "\<lparr>year = 2024, month = 1, day = 5\<rparr>"
  let ?R = "JObj [(''day'', JInt 5), (''period'', JStr ''Law''),
         (''first_reading'', JObj [(''book'', JStr ''Genesis''), (''chapters'', JStr ''1''),
                                   (''verses'', JStr ''all'')]),
         (''second_reading'', JStr ''none''), (''poem'', JNull)]"
  let ?E = "\<lparr>json_path = ''plan.json'', channel_id = 7, disk = Inr (JArr ([] @ ?R # [])),
           today = ?D, get_channel = Some (\<lambda>message. None)\<rparr>"
  let ?S = "\<lparr>sent = [], logger = []\<rparr>"
  have len: "length (tokens ''Day 5 Genesis 1'') = 4" by code_simp
  have rec: "process_day_line ''Law'' (tokens ''Day 5 Genesis 1'') = Inr (Some ?R)"
    by code_simp
  have day: "subscript ?R ''day'' = Inr (JInt 5)" by code_simp
  have m: "py_eq_int (JInt 5) (tm_yday ?D)" by code_simp
  note inst = null_poem_no_message [of ?R ?D "tokens ''Day 5 Genesis 1''" "''Law''" ?R
      ?E "[]" "[]" "JInt 5" ?S]
  from inst len rec have pf: "subscript ?R ''poem'' = Inr JNull
      \<and> format_daily_message ?R ?D = Inl TypeError"
    by blast
  have hyp: "disk ?E = Inr (JArr ([] @ ?R # []))
       \<and> (\<forall>x\<in>set []. \<exists>d. subscript x ''day'' = Inr d \<and> \<not> py_eq_int d (tm_yday (today ?E)))
       \<and> subscript ?R ''day'' = Inr (JInt 5) \<and> py_eq_int (JInt 5) (tm_yday (today ?E))
       \<and> subscript ?R ''poem'' = Inr JNull"
    using day m pf by simp
  from inst hyp have "\<exists>err. send_bible_message ?E ?S =
         (None, ?S\<lparr>logger := logger ?S @
            [Log INFO (''Successfully loaded Bible data from '' @ json_path ?E),
             LogExc ERROR ''Error sending Bible message: '' err]\<rparr>)"
    by blast
  then have f: "\<exists>err. send_bible_message ?E ?S =
       (None, \<lparr>sent = [],
               logger = [Log INFO ''Successfully loaded Bible data from plan.json'',
                         LogExc ERROR ''Error sending Bible message: '' err]\<rparr>)"
    by simp
  from pf have p1: "subscript ?R ''poem'' = Inr JNull"
    and p2: "format_daily_message ?R ?D = Inl TypeError" by simp_all
  show ?thesis by (intro conjI len rec p1 p2 m f)
qed

text \<open>
  Claim C2 says that for an entry whose second reading is not "none" the formatter
  returns the message with a Second Reading section holding the raw value. On the code
  it does not return: the raw value is put into the list of lines, and the join at the
  end raises TypeError when that value is not a string. The record that the parser
  builds for "Day 5 Exodus 2 Matthew 3 Proverbs 4" has a dict as second reading: the
  formatter raises TypeError on it, and the firing of that day delivers nothing. (Lemma
  \<open>format_daily_message_second_not_str\<close> is the same fact for every entry whose second
  reading is not a string.)
\<close>

theorem second_reading_object_raises:
  "result (parse_lines [''Day 5 Exodus 2 Matthew 3 Proverbs 4'']) =
       [JObj [(''day'', JInt 5), (''period'', JStr []),
          (''first_reading'',
             JObj [(''book'', JStr ''Exodus''), (''chapters'', JStr ''2''),
                   (''verses'', JStr ''all'')]),
          (''second_reading'',
             JObj [(''book'', JStr ''Matthew''), (''chapters'', JStr ''3''),
                   (''verses'', JStr ''all'')]),
          (''poem'',
             JObj [(''book'', JStr ''Proverbs''), (''chapters'', JStr ''4''),
                   (''verses'', JStr ''all'')])]]
   \<and> format_daily_message
        (JObj [(''day'', JInt 5), (''period'', JStr []),
          (''first_reading'',
             JObj [(''book'', JStr ''Exodus''), (''chapters'', JStr ''2''),
                   (''verses'', JStr ''all'')]),
          (''second_reading'',
             JObj [(''book'', JStr ''Matthew''), (''chapters'', JStr ''3''),
                   (''verses'', JStr ''all'')]),
          (''poem'',
             JObj [(''book'', JStr ''Proverbs''), (''chapters'', JStr ''4''),
                   (''verses'', JStr ''all'')])])
        \<lparr>year = 2024, month = 1, day = 5\<rparr> = Inl TypeError
   \<and> send_bible_message
        \<lparr>json_path = ''plan.json'', channel_id = 7,
           disk = Inr (JArr (result (parse_lines [''Day 5 Exodus 2 Matthew 3 Proverbs 4'']))),
           today = \<lparr>year = 2024, month = 1, day = 5\<rparr>,
           get_channel = Some (\<lambda>message. None)\<rparr>
        \<lparr>sent = [], logger = []\<rparr> =
       (None, \<lparr>sent = [],
               logger = [Log INFO ''Successfully loaded Bible data from plan.json'',
                         LogExc ERROR ''Error sending Bible message: '' TypeError]\<rparr>)"
  by code_simp

end
